theory Spec2Isabelle
  imports Complex_Main
begin

section \<open>Interbank contagion stress tester: data model\<close>

text \<open>
  The program is \<^verbatim>\<open>src/app.js\<close>. JavaScript numbers are modelled as real numbers: the
  claims below are about the control flow and the algebra of the simulation, not about
  rounding. Two places where JavaScript leaves the reals are written out where they occur:
  a division by zero (\<^verbatim>\<open>Infinity\<close>) in the Phase-1 rank, and property reads on
  \<^verbatim>\<open>undefined\<close>, which raise \<^verbatim>\<open>TypeError\<close>.

  The bank count \<^verbatim>\<open>N\<close> is a module constant (50) in the source. It is a parameter of
  every definition here, so that the scenarios of the specification (for example five
  banks) can be stated.
\<close>

definition MACRO_LOSS_FACTOR :: real where "MACRO_LOSS_FACTOR = 0.20"
definition MIN_CAPITAL_RATIO :: real where "MIN_CAPITAL_RATIO = 0.08"
definition MAX_CAPITAL_RATIO :: real where "MAX_CAPITAL_RATIO = 0.15"
definition ASSETS_MIN :: real where "ASSETS_MIN = 1000"
definition ASSETS_MAX :: real where "ASSETS_MAX = 5000"
definition DEBT_RANK_TOLERANCE :: real where "DEBT_RANK_TOLERANCE = 0.0001"
definition MAX_ITERATIONS :: nat where "MAX_ITERATIONS = 100"

definition INDIAN_BANK_NAMES :: "string list" where
  "INDIAN_BANK_NAMES =
    [''State Bank of India'', ''HDFC Bank'', ''ICICI Bank'', ''Punjab National Bank'', ''Bank of Baroda'',
     ''Union Bank of India'', ''Canara Bank'', ''Axis Bank'', ''Kotak Mahindra Bank'', ''IndusInd Bank'',
     ''Indian Bank'', ''Central Bank of India'', ''Bank of India'', ''Indian Overseas Bank'', ''UCO Bank'',
     ''IDBI Bank'', ''Yes Bank'', ''Federal Bank'', ''RBL Bank'', ''IDFC First Bank'',
     ''South Indian Bank'', ''J&K Bank'', ''Karur Vysya Bank'', ''Dhanlaxmi Bank'', ''City Union Bank'',
     ''Bandhan Bank'', ''Au Small Finance Bank'', ''Equitas Small Finance Bank'', ''CSB Bank'', ''DCB Bank'',
     ''Suryoday Small Finance Bank'', ''TMB'', ''CanaFin Homes'', ''HDFC LTD'', ''PNB Housing'',
     ''LIC Housing Finance'', ''IIFL Finance'', ''Shriram Transport Finance'', ''Muthoot Finance'', ''Bajaj Finance'',
     ''Bank A'', ''Bank B'', ''Bank C'', ''Bank D'', ''Bank E'',
     ''Bank F'', ''Bank G'', ''Bank H'', ''Bank I'', ''Bank J'']"

text \<open>\<^verbatim>\<open>const clamp = (num, min, max) => Math.min(Math.max(num, min), max)\<close>\<close>

definition clamp :: "real \<Rightarrow> real \<Rightarrow> real \<Rightarrow> real" where
  "clamp num mn mx = min (max num mn) mx"

text \<open>
  A bank object. The field \<^verbatim>\<open>id\<close> is called \<open>node_id\<close> (\<open>id\<close> is the identity function
  of HOL). \<open>stressLevel\<close> is the number the source stores: 0 healthy, 1 stressed, 2 failed.
  The coordinates that the force layout adds to the objects are not part of the model.
\<close>

record node =
  node_id :: nat
  name :: string
  A :: real
  E_initial :: real
  E :: real
  L :: real
  isFailed :: bool
  debtRank :: real
  stressLevel :: nat
  L_interbank :: real
  A_interbank :: real
  A_external :: real

text \<open>An entry of \<^verbatim>\<open>links\<close>: \<^verbatim>\<open>{ source, target, value }\<close>.\<close>

type_synonym link = "nat \<times> nat \<times> real"

text \<open>The module variable \<^verbatim>\<open>network = { nodes, links, adj }\<close>.\<close>

record network =
  nodes :: "node list"
  links :: "link list"
  adj :: "real list list"

datatype js_error = TypeError | RangeError

text \<open>
  The value of the shock selector: \<^verbatim>\<open>'macro'\<close>, \<^verbatim>\<open>'targeted'\<close> together with the parsed
  \<^verbatim>\<open>targetedBankId\<close>, or \<^verbatim>\<open>'random'\<close>.
\<close>

datatype shock = Macro | Targeted nat | Random

text \<open>
  An array write \<^verbatim>\<open>xs[i] = v\<close>. Inside the array it replaces the element; beyond the end
  JavaScript extends the array. The elements it skips are holes there and are \<open>0\<close> here;
  the program never reads them: it indexes the rank arrays and the rows of the matrix
  below the number of banks.
\<close>

definition js_set :: "real list \<Rightarrow> nat \<Rightarrow> real \<Rightarrow> real list" where
  "js_set xs i v =
     (if i < length xs then xs[i := v] else xs @ replicate (i - length xs) 0 @ [v])"

section \<open>The stress test: \<^verbatim>\<open>runSimulation\<close>\<close>

text \<open>
  \<^verbatim>\<open>initialNodes.map(n => ({ ...n, E: n.E_initial, isFailed: false, debtRank: 0, stressLevel: 0 }))\<close>
\<close>

definition workingCopy :: "node \<Rightarrow> node" where
  "workingCopy n = n\<lparr>E := E_initial n, isFailed := False, debtRank := 0, stressLevel := 0\<rparr>"

text \<open>
  The shock of Phase 1 on one bank; \<open>r\<close> is the value \<^verbatim>\<open>Math.random()\<close> returns for this
  bank (drawn only under the random shock).
\<close>

definition shockCapital :: "shock \<Rightarrow> real \<Rightarrow> node \<Rightarrow> node" where
  "shockCapital sh r n =
     (case sh of
        Macro \<Rightarrow> n\<lparr>E := E n - A_external n * MACRO_LOSS_FACTOR\<rparr>
      | Targeted t \<Rightarrow> if node_id n = t then n\<lparr>E := - 1\<rparr> else n
      | Random \<Rightarrow> if r < 0.1 then n\<lparr>E := E n - E_initial n * 0.8\<rparr> else n)"

text \<open>
  The rank a surviving bank starts with, \<^verbatim>\<open>clamp(1 - (node.E / node.E_initial), 0, 1)\<close>. It is
  computed only when \<open>E > 0\<close>; if \<open>E_initial\<close> is \<open>0\<close> the quotient is \<^verbatim>\<open>Infinity\<close> in
  JavaScript and the clamp gives \<open>0\<close>.
\<close>

definition initialRank :: "node \<Rightarrow> real" where
  "initialRank n = (if E_initial n = 0 then 0 else clamp (1 - E n / E_initial n) 0 1)"

definition markInitial :: "node \<Rightarrow> node" where
  "markInitial n =
     (if E n \<le> 0 then n\<lparr>isFailed := True, stressLevel := 2, debtRank := 1\<rparr>
      else let n' = n\<lparr>debtRank := initialRank n\<rparr>
           in if debtRank n' \<ge> 0.5 then n'\<lparr>stressLevel := 1\<rparr> else n')"

definition applyShock :: "shock \<Rightarrow> real \<Rightarrow> node \<Rightarrow> node" where
  "applyShock sh r n = markInitial (shockCapital sh r n)"

text \<open>
  Phase 1 over all banks. \<open>rnd k\<close> is the random number drawn for the bank at position
  \<open>k\<close>. The loop also stores each rank at \<^verbatim>\<open>initialRanks[node.id]\<close>, in an array that
  starts as \<^verbatim>\<open>nodes.map(n => 0)\<close>.
\<close>

definition phase1 :: "shock \<Rightarrow> (nat \<Rightarrow> real) \<Rightarrow> node list \<Rightarrow> node list" where
  "phase1 sh rnd ns = map (\<lambda>(k, n). applyShock sh (rnd k) n) (enumerate 0 ns)"

definition initialRanksOf :: "node list \<Rightarrow> real list" where
  "initialRanksOf ns =
     fold (\<lambda>n ranks. js_set ranks (node_id n) (debtRank n)) ns (map (\<lambda>n. 0) ns)"

text \<open>
  The inner loop of Phase 2 for creditor \<open>j\<close>: the sum, over the debtors \<open>i\<close> of the index
  list, of \<^verbatim>\<open>weight * deltaH\<close>. Reading \<^verbatim>\<open>adj[i][j]\<close> raises when row \<open>i\<close> is missing; a
  missing element of a row is \<^verbatim>\<open>undefined\<close> and fails the test \<^verbatim>\<open>L_ij > 0\<close>; reading
  \<^verbatim>\<open>nodes[i].L_interbank\<close> raises when bank \<open>i\<close> is missing.
\<close>

fun sumPropagated ::
  "real list list \<Rightarrow> node list \<Rightarrow> real list \<Rightarrow> real list \<Rightarrow> nat \<Rightarrow> nat list \<Rightarrow> real
     \<Rightarrow> js_error + real" where
  "sumPropagated adjm ns currentRanks previousRanks j [] acc = Inr acc"
| "sumPropagated adjm ns currentRanks previousRanks j (i # is) acc =
     (if length adjm \<le> i then Inl TypeError
      else if j < length (adjm ! i) \<and> adjm ! i ! j > 0 then
        (if length ns \<le> i then Inl TypeError
         else if L_interbank (ns ! i) > 0 then
           sumPropagated adjm ns currentRanks previousRanks j is
             (acc + (adjm ! i ! j / L_interbank (ns ! i)) * (currentRanks ! i - previousRanks ! i))
         else sumPropagated adjm ns currentRanks previousRanks j is acc)
      else sumPropagated adjm ns currentRanks previousRanks j is acc)"

text \<open>
  The loop over the creditors \<open>j\<close>. The state is the bank array, \<^verbatim>\<open>hasConverged\<close> and
  \<^verbatim>\<open>totalDebtRankChange\<close>. Reading \<^verbatim>\<open>nodes[j].debtRank\<close> raises when bank \<open>j\<close> is missing.
\<close>

fun updateRanks ::
  "real list list \<Rightarrow> nat \<Rightarrow> real list \<Rightarrow> real list \<Rightarrow> nat list \<Rightarrow> node list \<times> bool \<times> real
     \<Rightarrow> js_error + (node list \<times> bool \<times> real)" where
  "updateRanks adjm n currentRanks previousRanks [] st = Inr st"
| "updateRanks adjm n currentRanks previousRanks (j # js) (ns, hasConverged, totalChange) =
     (if length ns \<le> j then Inl TypeError
      else if debtRank (ns ! j) < 1 then
        (case sumPropagated adjm ns currentRanks previousRanks j [0..<n] 0 of
           Inl e \<Rightarrow> Inl e
         | Inr propagatedLossRatio \<Rightarrow>
             let rankIncrease = (1 - debtRank (ns ! j)) * propagatedLossRatio;
                 newRank = clamp (debtRank (ns ! j) + rankIncrease) (debtRank (ns ! j)) 1;
                 changed = (\<bar>newRank - debtRank (ns ! j)\<bar> > DEBT_RANK_TOLERANCE)
             in updateRanks adjm n currentRanks previousRanks js
                  (ns[j := (ns ! j)\<lparr>debtRank := newRank\<rparr>],
                   if changed then False else hasConverged,
                   if changed then totalChange + \<bar>newRank - debtRank (ns ! j)\<bar> else totalChange))
      else updateRanks adjm n currentRanks previousRanks js (ns, hasConverged, totalChange))"

text \<open>The re-evaluation of capital and status that ends every pass.\<close>

definition reEvaluate :: "node \<Rightarrow> node" where
  "reEvaluate n =
     (let n1 = n\<lparr>E := E_initial n * (1 - debtRank n)\<rparr>
      in if E n1 \<le> 0 \<or> debtRank n1 \<ge> 0.9999
         then n1\<lparr>isFailed := True, stressLevel := 2, debtRank := 1, E := 0\<rparr>
         else if debtRank n1 > 0.4 then n1\<lparr>stressLevel := 1\<rparr>
         else n1\<lparr>stressLevel := 0\<rparr>)"

text \<open>
  The rank updates of one pass: \<^verbatim>\<open>hasConverged = true\<close>, \<^verbatim>\<open>totalDebtRankChange = 0\<close>,
  \<^verbatim>\<open>currentRanks = nodes.map(n => n.debtRank)\<close>, then the loop over \<open>j = 0 .. N - 1\<close>.
\<close>

definition rankUpdate ::
  "int \<Rightarrow> real list list \<Rightarrow> node list \<Rightarrow> real list \<Rightarrow> js_error + (node list \<times> bool \<times> real)" where
  "rankUpdate N adjm ns previousRanks =
     updateRanks adjm (nat N) (map debtRank ns) previousRanks [0..<nat N] (ns, True, 0)"

text \<open>
  One pass of the loop body. It returns the banks after the re-evaluation, the new
  \<^verbatim>\<open>previousRanks\<close> (the ranks read at the start of the pass) and \<^verbatim>\<open>hasConverged\<close>.
\<close>

definition phase2_pass ::
  "int \<Rightarrow> real list list \<Rightarrow> node list \<Rightarrow> real list \<Rightarrow> js_error + (node list \<times> real list \<times> bool)" where
  "phase2_pass N adjm ns previousRanks =
     (case rankUpdate N adjm ns previousRanks of
        Inl e \<Rightarrow> Inl e
      | Inr (ns1, hasConverged, totalChange) \<Rightarrow>
          Inr (map reEvaluate ns1, map debtRank ns,
               if totalChange < DEBT_RANK_TOLERANCE then True else hasConverged))"

text \<open>
  \<^verbatim>\<open>while (!hasConverged && iterations < MAX_ITERATIONS)\<close>. The result is the bank array
  with the final values of \<^verbatim>\<open>iterations\<close> and \<^verbatim>\<open>hasConverged\<close>.
\<close>

function phase2_loop ::
  "int \<Rightarrow> real list list \<Rightarrow> node list \<Rightarrow> real list \<Rightarrow> nat \<Rightarrow> bool
     \<Rightarrow> js_error + (node list \<times> nat \<times> bool)" where
  "phase2_loop N adjm ns previousRanks iterations hasConverged =
     (if \<not> hasConverged \<and> iterations < MAX_ITERATIONS then
        (case phase2_pass N adjm ns previousRanks of
           Inl e \<Rightarrow> Inl e
         | Inr (ns', currentRanks, hasConverged') \<Rightarrow>
             phase2_loop N adjm ns' currentRanks (Suc iterations) hasConverged')
      else Inr (ns, iterations, hasConverged))"
  by pat_completeness auto
termination
  by (relation "measure (\<lambda>(N, adjm, ns, previousRanks, iterations, hasConverged).
        MAX_ITERATIONS - iterations)") auto

text \<open>Phases 1 and 2 of \<^verbatim>\<open>runSimulation\<close>, up to the end of the loop.\<close>

definition runPhases ::
  "int \<Rightarrow> network \<Rightarrow> shock \<Rightarrow> (nat \<Rightarrow> real) \<Rightarrow> js_error + (node list \<times> nat \<times> bool)" where
  "runPhases N net sh rnd =
     (let ns = phase1 sh rnd (map workingCopy (nodes net))
      in phase2_loop N (adj net) ns (initialRanksOf ns) 0 False)"

text \<open>
  \<^verbatim>\<open>updateMetricsDashboard\<close>, as far as it touches the module state. It sorts
  \<^verbatim>\<open>network.nodes\<close> in place with \<^verbatim>\<open>nodes.sort((a, b) => b.debtRank - a.debtRank)\<close>, a stable
  sort by descending rank, and then reads \<^verbatim>\<open>network.adj[node.id].filter(...)\<close> for every bank,
  which raises when the matrix has no row for the identifier. The rest is output to the
  page.
\<close>

definition updateMetricsDashboard :: "network \<Rightarrow> js_error + network" where
  "updateMetricsDashboard net =
     (let sorted = sort_key (\<lambda>n. - debtRank n) (nodes net)
      in if list_all (\<lambda>n. node_id n < length (adj net)) sorted
         then Inr (net\<lparr>nodes := sorted\<rparr>) else Inl TypeError)"

text \<open>
  \<^verbatim>\<open>runSimulation\<close> as a transformer of the module variable \<^verbatim>\<open>network\<close>. After the loop it
  assigns \<^verbatim>\<open>network.nodes = nodes\<close> and calls \<^verbatim>\<open>renderNetwork(false)\<close>, whose first statement
  is \<^verbatim>\<open>updateMetricsDashboard(false)\<close>. The result is the variable after the call, or the
  exception.
\<close>

definition runSimulation ::
  "int \<Rightarrow> network \<Rightarrow> shock \<Rightarrow> (nat \<Rightarrow> real) \<Rightarrow> js_error + network" where
  "runSimulation N net sh rnd =
     (case runPhases N net sh rnd of
        Inl e \<Rightarrow> Inl e
      | Inr (ns, iterations, hasConverged) \<Rightarrow> updateMetricsDashboard (net\<lparr>nodes := ns\<rparr>))"

section \<open>Network generation: \<^verbatim>\<open>generateNetwork\<close>\<close>

text \<open>
  The random inputs are parameters. \<open>rnd\<close> lists the values that the calls of
  \<^verbatim>\<open>Math.random()\<close> written in \<^verbatim>\<open>generateNetwork\<close> return, in the order of the calls.
  \<^verbatim>\<open>d3.shuffle\<close> belongs to a library; its result on the name pool is \<open>shuffleNames\<close> and
  its result on the creditor candidates of the debtor at position \<open>k\<close> is \<open>shuffleNodes k\<close>.
\<close>

text \<open>The decimal digits of a number, for the template \<^verbatim>\<open>`Bank ${i+1}`\<close>.\<close>

definition digitChars :: string where
  "digitChars = ''0123456789''"

fun decimalDigits :: "nat \<Rightarrow> string" where
  "decimalDigits n =
     (let last_digit = digitChars ! (n mod 10)
      in if n < 10 then [last_digit] else decimalDigits (n div 10) @ [last_digit])"

text \<open>\<^verbatim>\<open>shuffledNames[i] || `Bank ${i+1}`\<close>: a missing or empty name gives the default.\<close>

definition bankName :: "string list \<Rightarrow> nat \<Rightarrow> string" where
  "bankName shuffledNames i =
     (if i < length shuffledNames \<and> shuffledNames ! i \<noteq> [] then shuffledNames ! i
      else ''Bank '' @ decimalDigits (i + 1))"

text \<open>
  The body of the first loop for bank \<open>i\<close>, which draws twice. \<^verbatim>\<open>A_external\<close> is absent from
  the new object and is \<open>0\<close> here; the last loop sets it for every bank.
\<close>

definition makeNode :: "string list \<Rightarrow> (nat \<Rightarrow> real) \<Rightarrow> nat \<Rightarrow> node" where
  "makeNode shuffledNames rnd i =
     (let totalAssets = rnd (2 * i) * (ASSETS_MAX - ASSETS_MIN) + ASSETS_MIN;
          capitalRatio = rnd (2 * i + 1) * (MAX_CAPITAL_RATIO - MIN_CAPITAL_RATIO) + MIN_CAPITAL_RATIO;
          e = totalAssets * capitalRatio;
          l = totalAssets - e
      in \<lparr>node_id = i, name = bankName shuffledNames i, A = totalAssets, E_initial = e, E = e,
          L = l, isFailed = False, debtRank = 0, stressLevel = 0, L_interbank = 0,
          A_interbank = 0, A_external = 0\<rparr>)"

text \<open>\<^verbatim>\<open>xs.slice(0, k)\<close>; a negative \<open>k\<close> counts from the end.\<close>

definition js_slice0 :: "'a list \<Rightarrow> int \<Rightarrow> 'a list" where
  "js_slice0 xs k = (if 0 \<le> k then take (nat k) xs else take (length xs - nat (- k)) xs)"

text \<open>
  The loop over the chosen creditors of one debtor. \<open>row\<close> is the debtor's row of \<^verbatim>\<open>adj\<close>,
  \<open>pos\<close> the number of random values used so far.
\<close>

fun assignShares ::
  "real \<Rightarrow> (nat \<Rightarrow> real) \<Rightarrow> nat \<Rightarrow> node list \<Rightarrow> real list \<Rightarrow> real \<Rightarrow> real list \<times> nat" where
  "assignShares totalIBL rnd pos [] row assignedLiability = (row, pos)"
| "assignShares totalIBL rnd pos (creditor # cs) row assignedLiability =
     (let liabilityShare = min (totalIBL * (rnd pos * 0.4 + 0.1)) (totalIBL - assignedLiability)
      in if liabilityShare > 0
         then assignShares totalIBL rnd (Suc pos) cs
                (js_set row (node_id creditor) liabilityShare) (assignedLiability + liabilityShare)
         else assignShares totalIBL rnd (Suc pos) cs row assignedLiability)"

text \<open>
  The loop over the debtors, by position. The state is the bank array (the loop stores
  \<^verbatim>\<open>L_interbank\<close> in the debtor), the matrix and the number of random values used. Every
  bank of the array has the identifier the first loop gave it, its position, and the
  matrix has a row for each, so the row \<^verbatim>\<open>adj[debtor.id]\<close> exists.
\<close>

fun debtorLoop ::
  "(nat \<Rightarrow> node list \<Rightarrow> node list) \<Rightarrow> (nat \<Rightarrow> real) \<Rightarrow> nat list
     \<Rightarrow> node list \<times> real list list \<times> nat \<Rightarrow> node list \<times> real list list \<times> nat" where
  "debtorLoop shuffleNodes rnd [] st = st"
| "debtorLoop shuffleNodes rnd (k # ks) (ns, adjm, pos) =
     (let debtor = ns ! k;
          totalIBL = L debtor * (0.15 + rnd pos * 0.15);
          ns1 = ns[k := debtor\<lparr>L_interbank := totalIBL\<rparr>];
          numCreditors = \<lfloor>rnd (pos + 1) * 4\<rfloor> + 1;
          potentialCreditors = filter (\<lambda>n. node_id n \<noteq> node_id debtor) ns1;
          chosen = js_slice0 (shuffleNodes k potentialCreditors) numCreditors;
          (row, pos') = assignShares totalIBL rnd (pos + 2) chosen (adjm ! node_id debtor) 0
      in debtorLoop shuffleNodes rnd ks (ns1, adjm[node_id debtor := row], pos'))"

text \<open>The last loop: interbank assets (a column sum), external assets and the links.\<close>

definition finalizeNode :: "nat \<Rightarrow> real list list \<Rightarrow> node \<Rightarrow> node" where
  "finalizeNode n adjm nd =
     (let a_ib = sum_list (map (\<lambda>j. adjm ! j ! node_id nd) [0..<n])
      in nd\<lparr>A_interbank := a_ib, A_external := A nd - a_ib\<rparr>)"

definition nodeLinks :: "nat \<Rightarrow> real list list \<Rightarrow> node \<Rightarrow> link list" where
  "nodeLinks n adjm nd =
     map (\<lambda>j. (node_id nd, j, adjm ! node_id nd ! j))
       (filter (\<lambda>j. adjm ! node_id nd ! j > 0) [0..<n])"

text \<open>The largest length of a JavaScript array, \<^verbatim>\<open>2 ** 32 - 1\<close>.\<close>

definition MAX_ARRAY_LENGTH :: int where
  "MAX_ARRAY_LENGTH = 4294967295"

text \<open>
  \<^verbatim>\<open>generateNetwork\<close>. \<^verbatim>\<open>Array(N)\<close> raises \<^verbatim>\<open>RangeError\<close> for a length that is negative or
  above the largest array length; for such a large \<open>N\<close> the first loop raises the same
  error before, at the \<^verbatim>\<open>push\<close> that would take the array of banks past that length.
  Memory is not bounded here. The function checks no parameter. It ends with
  \<^verbatim>\<open>updateMetricsDashboard(true)\<close>. The running total \<^verbatim>\<open>totalInitialCapital\<close>, which only the
  page shows, is left out.
\<close>

definition generateNetwork ::
  "int \<Rightarrow> (string list \<Rightarrow> string list) \<Rightarrow> (nat \<Rightarrow> node list \<Rightarrow> node list) \<Rightarrow> (nat \<Rightarrow> real)
     \<Rightarrow> js_error + network" where
  "generateNetwork N shuffleNames shuffleNodes rnd =
     (if N < 0 \<or> MAX_ARRAY_LENGTH < N then Inl RangeError
      else
        let n = nat N;
            shuffledNames = shuffleNames (take n INDIAN_BANK_NAMES);
            ns0 = map (makeNode shuffledNames rnd) [0..<n];
            adj0 = replicate n (replicate n 0);
            (ns1, adj1, pos) = debtorLoop shuffleNodes rnd [0..<n] (ns0, adj0, 2 * n);
            ns2 = map (finalizeNode n adj1) ns1;
            lks = concat (map (nodeLinks n adj1) ns2)
        in updateMetricsDashboard \<lparr>nodes = ns2, links = lks, adj = adj1\<rparr>)"

text \<open>
  The shape of the network that \<^verbatim>\<open>generateNetwork\<close> builds for \<open>N\<close> banks: the bank at
  position \<open>k\<close> has identifier \<open>k\<close>, and the matrix has \<open>N\<close> rows.
\<close>

definition wf_network :: "int \<Rightarrow> network \<Rightarrow> bool" where
  "wf_network N net \<longleftrightarrow>
     map node_id (nodes net) = [0..<nat N] \<and> length (adj net) = nat N"

section \<open>Auxiliary predicates and example networks\<close>

text \<open>
  The fields of a bank that the stress test never writes: identifier, name, assets, initial
  capital, liabilities, interbank liabilities and assets, external assets.
\<close>

definition staticFields ::
  "node \<Rightarrow> nat \<times> string \<times> real \<times> real \<times> real \<times> real \<times> real \<times> real" where
  "staticFields n =
     (node_id n, name n, A n, E_initial n, L n, L_interbank n, A_interbank n, A_external n)"

text \<open>A bank with full rank is marked failed and has no capital.\<close>

definition failedConsistent :: "node \<Rightarrow> bool" where
  "failedConsistent n \<longleftrightarrow> (debtRank n = 1 \<longrightarrow> isFailed n \<and> E n = 0)"

text \<open>
  The relation between \<^verbatim>\<open>hasConverged\<close> and \<^verbatim>\<open>totalDebtRankChange\<close> inside a pass: the total
  is \<open>0\<close> while the flag is set, and above the tolerance once it is cleared.
\<close>

definition flagsInv :: "bool \<Rightarrow> real \<Rightarrow> bool" where
  "flagsInv hc t \<longleftrightarrow> (if hc then t = 0 else DEBT_RANK_TOLERANCE < t)"

text \<open>A bank with assets \<open>a\<close>, initial capital \<open>e0\<close> and the given interbank totals.\<close>

definition bank :: "nat \<Rightarrow> real \<Rightarrow> real \<Rightarrow> real \<Rightarrow> real \<Rightarrow> node" where
  "bank i a e0 l_ib a_ib =
     \<lparr>node_id = i, name = ''Bank'', A = a, E_initial = e0, E = e0, L = a - e0, isFailed = False,
      debtRank = 0, stressLevel = 0, L_interbank = l_ib, A_interbank = a_ib,
      A_external = a - a_ib\<rparr>"

definition failedBank :: "node \<Rightarrow> node" where
  "failedBank n = n\<lparr>E := 0, isFailed := True, debtRank := 1, stressLevel := 2\<rparr>"

definition halfDraws :: "nat \<Rightarrow> real" where
  "halfDraws k = 1 / 2"

text \<open>
  Five banks; bank 0 has \<open>L_interbank = L = 900\<close> and owes all of it to bank 1. Banks 2, 3
  and 4 hold no claim on bank 0.
\<close>

definition targetedScenario :: network where
  "targetedScenario =
     \<lparr>nodes = [bank 0 1000 100 900 0, bank 1 1000 100 0 900, bank 2 1000 100 100 0,
               bank 3 1000 100 50 100, bank 4 1000 100 0 50],
      links = [(0, 1, 900), (2, 3, 100), (3, 4, 50)],
      adj = [ [0, 900, 0, 0, 0], [0, 0, 0, 0, 0], [0, 0, 0, 100, 0], [0, 0, 0, 0, 50],
             [0, 0, 0, 0, 0]]\<rparr>"

text \<open>Three banks in a chain: bank 0 owes 900 to bank 1, bank 1 owes 600 to bank 2.\<close>

definition chainNet :: network where
  "chainNet =
     \<lparr>nodes = [bank 0 10000 1000 900 0, bank 1 10000 1000 600 900, bank 2 10000 1000 0 600],
      links = [(0, 1, 900), (1, 2, 600)],
      adj = [ [0, 900, 0], [0, 0, 600], [0, 0, 0]]\<rparr>"

text \<open>The chain after a stress test targeted at bank 1: bank 1 has failed and is listed first.\<close>

definition chainNetAfterRun :: network where
  "chainNetAfterRun =
     chainNet\<lparr>nodes := [failedBank (bank 1 10000 1000 600 900), bank 0 10000 1000 900 0,
                        bank 2 10000 1000 0 600]\<rparr>"

text \<open>The state of the chain at the start of Phase 2 in a second run targeted at bank 1.\<close>

definition chainSecondStart :: "node list" where
  "chainSecondStart =
     [(bank 1 10000 1000 600 900)\<lparr>E := - 1, isFailed := True, debtRank := 1, stressLevel := 2\<rparr>,
      bank 0 10000 1000 900 0, bank 2 10000 1000 0 600]"

text \<open>Two banks: bank 0 owes 1 to bank 1, bank 1 owes 5000 of its 10000 to bank 0.\<close>

definition pairNet :: network where
  "pairNet =
     \<lparr>nodes = [bank 0 10000 1000 1 5000, bank 1 20000 2000 10000 1],
      links = [(0, 1, 1), (1, 0, 5000)],
      adj = [ [0, 1], [5000, 0]]\<rparr>"

text \<open>The pair after a stress test targeted at bank 1.\<close>

definition pairNetAfterRun :: network where
  "pairNetAfterRun =
     pairNet\<lparr>nodes := [failedBank (bank 1 20000 2000 10000 1), bank 0 10000 1000 1 5000]\<rparr>"

text \<open>The state of the pair at the start of Phase 2 in a second run targeted at bank 1.\<close>

definition pairSecondStart :: "node list" where
  "pairSecondStart =
     [(bank 1 20000 2000 10000 1)\<lparr>E := - 1, isFailed := True, debtRank := 1, stressLevel := 2\<rparr>,
      bank 0 10000 1000 1 5000]"

text \<open>Shuffles that keep the order, for the examples.\<close>

definition sameOrder :: "'a list \<Rightarrow> 'a list" where
  "sameOrder xs = xs"

definition sameOrderAt :: "nat \<Rightarrow> node list \<Rightarrow> node list" where
  "sameOrderAt k xs = xs"

text \<open>The network generated for one bank when every random number is \<open>1 / 2\<close>.\<close>

definition generatedSingle :: network where
  "generatedSingle =
     \<lparr>nodes = [\<lparr>node_id = 0, name = ''State Bank of India'', A = 3000, E_initial = 345,
                E = 345, L = 2655, isFailed = False, debtRank = 0, stressLevel = 0,
                L_interbank = 4779 / 8, A_interbank = 0, A_external = 3000\<rparr>],
      links = [], adj = [ [0]]\<rparr>"

text \<open>The network generated for three banks when every random number is \<open>1 / 2\<close>.\<close>

definition generatedTrio :: network where
  "generatedTrio =
     \<lparr>nodes =
        [\<lparr>node_id = 0, name = ''State Bank of India'', A = 3000, E_initial = 345, E = 345,
            L = 2655, isFailed = False, debtRank = 0, stressLevel = 0, L_interbank = 4779 / 8,
            A_interbank = 14337 / 40, A_external = 105663 / 40\<rparr>,
         \<lparr>node_id = 1, name = ''HDFC Bank'', A = 3000, E_initial = 345, E = 345,
            L = 2655, isFailed = False, debtRank = 0, stressLevel = 0, L_interbank = 4779 / 8,
            A_interbank = 14337 / 40, A_external = 105663 / 40\<rparr>,
         \<lparr>node_id = 2, name = ''ICICI Bank'', A = 3000, E_initial = 345, E = 345,
            L = 2655, isFailed = False, debtRank = 0, stressLevel = 0, L_interbank = 4779 / 8,
            A_interbank = 14337 / 40, A_external = 105663 / 40\<rparr>],
      links =
        [(0, 1, 14337 / 80), (0, 2, 14337 / 80), (1, 0, 14337 / 80), (1, 2, 14337 / 80),
         (2, 0, 14337 / 80), (2, 1, 14337 / 80)],
      adj =
        [ [0, 14337 / 80, 14337 / 80], [14337 / 80, 0, 14337 / 80],
         [14337 / 80, 14337 / 80, 0]]\<rparr>"


section \<open>Properties of the stress test\<close>

subsection \<open>The first pass on a generated network\<close>


lemma length_js_set: "length xs \<le> length (js_set xs i v)"
  by (simp add: js_set_def)

lemma fold_js_set_ids:
  "map node_id ys = [k..<k + length ys] \<Longrightarrow> k + length ys \<le> length rs \<Longrightarrow>
   fold (\<lambda>n ranks. js_set ranks (node_id n) (debtRank n)) ys rs
     = take k rs @ map debtRank ys @ drop (k + length ys) rs"
proof (induction ys arbitrary: k rs)
  case Nil
  then show ?case by simp
next
  case (Cons y ys)
  from Cons.prems(1) have idy: "node_id y = k" and rest: "map node_id ys = [Suc k..<Suc k + length ys]"
    by (simp_all del: upt_Suc add: upt_rec[of k])
  from Cons.prems(2) have klt: "k < length rs" by simp
  have step: "js_set rs (node_id y) (debtRank y) = rs[k := debtRank y]"
    using klt idy by (simp add: js_set_def)
  have "fold (\<lambda>n ranks. js_set ranks (node_id n) (debtRank n)) ys (rs[k := debtRank y])
      = take (Suc k) (rs[k := debtRank y]) @ map debtRank ys @ drop (Suc k + length ys) (rs[k := debtRank y])"
    using Cons.IH[OF rest, of "rs[k := debtRank y]"] Cons.prems(2) by simp
  moreover have "take (Suc k) (rs[k := debtRank y]) = take k rs @ [debtRank y]"
    using klt by (simp add: take_Suc_conv_app_nth)
  ultimately show ?case using step by simp
qed

lemma initialRanksOf_ids:
  assumes "map node_id ns = [0..<length ns]"
  shows "initialRanksOf ns = map debtRank ns"
  using fold_js_set_ids[of ns 0 "map (\<lambda>n. 0) ns"] assms
  by (simp add: initialRanksOf_def)

text \<open>
  \<^verbatim>\<open>initialRanks\<close> has an element for every bank, whatever the identifiers are, so the read
  \<^verbatim>\<open>previousRanks[i]\<close> of the first pass is inside the array; in later passes
  \<^verbatim>\<open>previousRanks\<close> is the \<^verbatim>\<open>currentRanks\<close> of the pass before.
\<close>

lemma length_fold_js_set:
  "length rs \<le> length (fold (\<lambda>n ranks. js_set ranks (node_id n) (debtRank n)) ys rs)"
proof (induction ys arbitrary: rs)
  case Nil
  then show ?case by simp
next
  case (Cons y ys)
  have "length rs \<le> length (js_set rs (node_id y) (debtRank y))"
    by (rule length_js_set)
  also have "\<dots> \<le> length (fold (\<lambda>n ranks. js_set ranks (node_id n) (debtRank n)) ys
                         (js_set rs (node_id y) (debtRank y)))"
    by (rule Cons.IH)
  finally show ?case by simp
qed

lemma length_initialRanksOf: "length ns \<le> length (initialRanksOf ns)"
  using length_fold_js_set[of "map (\<lambda>n. 0) ns" ns] by (simp add: initialRanksOf_def)

lemma node_id_workingCopy: "node_id (workingCopy n) = node_id n"
  by (simp add: workingCopy_def)

lemma map_node_id_workingCopy: "map node_id (map workingCopy ns) = map node_id ns"
  by (simp add: node_id_workingCopy)

lemma node_id_applyShock: "node_id (applyShock sh r n) = node_id n"
  by (simp add: applyShock_def markInitial_def shockCapital_def Let_def split: shock.split)

lemma length_phase1: "length (phase1 sh rnd ns) = length ns"
  by (simp add: phase1_def)

lemma map_node_id_phase1: "map node_id (phase1 sh rnd ns) = map node_id ns"
  by (rule nth_equalityI) (simp_all add: phase1_def nth_enumerate_eq node_id_applyShock)

lemma sumPropagated_zero:
  "\<forall>i\<in>set is. i < length adjm \<and> i < length ns \<and> cur ! i = prev ! i \<Longrightarrow>
   sumPropagated adjm ns cur prev j is acc = Inr acc"
  by (induction "is" arbitrary: acc) auto

lemma updateRanks_fixed:
  assumes "\<forall>i<n. i < length adjm \<and> i < length ns \<and> cur ! i = prev ! i"
    and "\<forall>j\<in>set js. j < length ns"
  shows "updateRanks adjm n cur prev js (ns, hc, t) = Inr (ns, hc, t)"
  using assms(2)
proof (induction js)
  case Nil
  then show ?case by simp
next
  case (Cons j js)
  have z: "sumPropagated adjm ns cur prev j [0..<n] 0 = Inr 0"
    using assms(1) by (intro sumPropagated_zero) simp
  have "debtRank (ns ! j) < 1 \<Longrightarrow> clamp (debtRank (ns ! j)) (debtRank (ns ! j)) 1 = debtRank (ns ! j)"
    by (simp add: clamp_def)
  then show ?case using Cons z
    by (simp add: DEBT_RANK_TOLERANCE_def)
qed

lemma phase2_pass_fixed:
  assumes "nat N \<le> length adjm" and "nat N \<le> length ns"
    and "\<forall>i<nat N. map debtRank ns ! i = prev ! i"
  shows "rankUpdate N adjm ns prev = Inr (ns, True, 0)"
    and "phase2_pass N adjm ns prev = Inr (map reEvaluate ns, map debtRank ns, True)"
proof -
  show r: "rankUpdate N adjm ns prev = Inr (ns, True, 0)"
    unfolding rankUpdate_def using assms by (intro updateRanks_fixed) auto
  show "phase2_pass N adjm ns prev = Inr (map reEvaluate ns, map debtRank ns, True)"
    by (simp add: phase2_pass_def r)
qed

lemma MAX_ITERATIONS_pos: "0 < MAX_ITERATIONS"
  by (simp add: MAX_ITERATIONS_def)

lemma phase2_loop_done:
  "hc \<or> MAX_ITERATIONS \<le> it \<Longrightarrow> phase2_loop N adjm ns prev it hc = Inr (ns, it, hc)"
  by auto

lemma phase2_loop_step:
  "\<not> hc \<Longrightarrow> it < MAX_ITERATIONS \<Longrightarrow> phase2_pass N adjm ns prev = Inr (ns', cur, hc') \<Longrightarrow>
   phase2_loop N adjm ns prev it hc = phase2_loop N adjm ns' cur (Suc it) hc'"
  by simp

lemma phase2_loop_error:
  "\<not> hc \<Longrightarrow> it < MAX_ITERATIONS \<Longrightarrow> phase2_pass N adjm ns prev = Inl e \<Longrightarrow>
   phase2_loop N adjm ns prev it hc = Inl e"
  by simp

declare phase2_loop.simps [simp del]

lemma reEvaluate_rank:
  "debtRank (reEvaluate n) =
     (if E_initial n * (1 - debtRank n) \<le> 0 \<or> debtRank n \<ge> 0.9999 then 1 else debtRank n)"
  by (simp add: reEvaluate_def Let_def)

lemma reEvaluate_forced:
  "E_initial n * (1 - debtRank n) \<le> 0 \<or> debtRank n \<ge> 0.9999 \<Longrightarrow>
   debtRank (reEvaluate n) = 1 \<and> isFailed (reEvaluate n) \<and> stressLevel (reEvaluate n) = 2
     \<and> E (reEvaluate n) = 0"
  by (simp add: reEvaluate_def Let_def)

lemma wf_first_pass:
  assumes "wf_network N net" and "ns = phase1 sh rnd (map workingCopy (nodes net))"
  shows "initialRanksOf ns = map debtRank ns" and "length ns = nat N"
proof -
  have ids: "map node_id ns = [0..<nat N]"
    using assms by (simp only: wf_network_def map_node_id_phase1 map_node_id_workingCopy)
  then have "length (map node_id ns) = nat N" by simp
  then show len: "length ns = nat N" by simp
  show "initialRanksOf ns = map debtRank ns"
    using ids len by (intro initialRanksOf_ids) simp
qed


subsection \<open>Ranks never decrease\<close>

lemma clamp_lower: "lo \<le> hi \<Longrightarrow> lo \<le> clamp x lo hi \<and> clamp x lo hi \<le> hi"
  by (simp add: clamp_def)

lemma updateRanks_mono:
  "updateRanks adjm n cur prev js (ns, hc, t) = Inr (ns', hc', t') \<Longrightarrow>
   length ns' = length ns \<and>
   (\<forall>k<length ns. debtRank (ns ! k) \<le> debtRank (ns' ! k)
       \<and> (debtRank (ns ! k) \<le> 1 \<longrightarrow> debtRank (ns' ! k) \<le> 1)
       \<and> E_initial (ns' ! k) = E_initial (ns ! k))"
proof (induction js arbitrary: ns hc t)
  case Nil
  then show ?case by simp
next
  case (Cons j js)
  from Cons.prems have jlt: "j < length ns"
    by (auto split: if_splits)
  show ?case
  proof (cases "debtRank (ns ! j) < 1")
    case False
    with Cons.prems jlt have "updateRanks adjm n cur prev js (ns, hc, t) = Inr (ns', hc', t')"
      by simp
    from Cons.IH[OF this] show ?thesis .
  next
    case True
    with Cons.prems jlt obtain p where p: "sumPropagated adjm ns cur prev j [0..<n] 0 = Inr p"
      by (auto split: sum.splits)
    define newRank where
      "newRank = clamp (debtRank (ns ! j) + (1 - debtRank (ns ! j)) * p) (debtRank (ns ! j)) 1"
    define ns1 where "ns1 = ns[j := (ns ! j)\<lparr>debtRank := newRank\<rparr>]"
    obtain hc1 t1 where rec: "updateRanks adjm n cur prev js (ns1, hc1, t1) = Inr (ns', hc', t')"
      using Cons.prems jlt True p by (simp add: Let_def newRank_def ns1_def)
    have nr: "debtRank (ns ! j) \<le> newRank \<and> newRank \<le> 1"
      unfolding newRank_def using True by (intro clamp_lower) simp
    have one: "\<forall>k<length ns. debtRank (ns ! k) \<le> debtRank (ns1 ! k)
       \<and> (debtRank (ns ! k) \<le> 1 \<longrightarrow> debtRank (ns1 ! k) \<le> 1)
       \<and> E_initial (ns1 ! k) = E_initial (ns ! k)"
      using nr jlt by (auto simp: ns1_def nth_list_update)
    have len1: "length ns1 = length ns" by (simp add: ns1_def)
    from Cons.IH[OF rec] one len1 show ?thesis
      by (metis order_trans)
  qed
qed

lemma reEvaluate_mono:
  "debtRank n \<le> 1 \<Longrightarrow> debtRank n \<le> debtRank (reEvaluate n) \<and> debtRank (reEvaluate n) \<le> 1"
  by (simp add: reEvaluate_rank)

lemma phase2_pass_mono:
  assumes "phase2_pass N adjm ns prev = Inr (ns', cur, conv)" and "\<forall>n\<in>set ns. debtRank n \<le> 1"
  shows "length ns' = length ns"
    and "\<forall>k<length ns. debtRank (ns ! k) \<le> debtRank (ns' ! k)"
    and "\<forall>n\<in>set ns'. debtRank n \<le> 1"
proof -
  from assms(1) obtain ns1 hc t where
    upd: "updateRanks adjm (nat N) (map debtRank ns) prev [0..<nat N] (ns, True, 0) = Inr (ns1, hc, t)"
    and ns': "ns' = map reEvaluate ns1"
    by (auto simp: phase2_pass_def rankUpdate_def split: sum.splits)
  note m = updateRanks_mono[OF upd]
  from m show len: "length ns' = length ns" by (simp add: ns')
  have le1: "\<forall>k<length ns. debtRank (ns1 ! k) \<le> 1"
    using m assms(2) by (simp add: all_set_conv_all_nth)
  show "\<forall>k<length ns. debtRank (ns ! k) \<le> debtRank (ns' ! k)"
  proof (intro allI impI)
    fix k assume k: "k < length ns"
    have "debtRank (ns ! k) \<le> debtRank (ns1 ! k)" using m k by simp
    also have "\<dots> \<le> debtRank (reEvaluate (ns1 ! k))"
      using reEvaluate_mono le1 k by simp
    finally show "debtRank (ns ! k) \<le> debtRank (ns' ! k)"
      using m k by (simp add: ns')
  qed
  show "\<forall>n\<in>set ns'. debtRank n \<le> 1"
    using le1 m reEvaluate_mono by (auto simp: ns' all_set_conv_all_nth)
qed

lemma phase2_loop_mono:
  "phase2_loop N adjm ns prev it hc = Inr (ns', it', hc') \<Longrightarrow> \<forall>n\<in>set ns. debtRank n \<le> 1 \<Longrightarrow>
   length ns' = length ns \<and> (\<forall>k<length ns. debtRank (ns ! k) \<le> debtRank (ns' ! k))"
proof (induction N adjm ns prev it hc rule: phase2_loop.induct)
  case (1 N adjm ns prev it hc)
  show ?case
  proof (cases "\<not> hc \<and> it < MAX_ITERATIONS")
    case False
    then have "phase2_loop N adjm ns prev it hc = Inr (ns, it, hc)"
      by (intro phase2_loop_done) auto
    with "1.prems" show ?thesis by simp
  next
    case True
    then obtain ns1 cur hc1 where pass: "phase2_pass N adjm ns prev = Inr (ns1, cur, hc1)"
      using "1.prems"(1) by (cases "phase2_pass N adjm ns prev") (auto simp: phase2_loop_error)
    have rec: "phase2_loop N adjm ns1 cur (Suc it) hc1 = Inr (ns', it', hc')"
      using phase2_loop_step[of hc it N adjm ns prev ns1 cur hc1] True pass "1.prems"(1) by simp
    note pm = phase2_pass_mono[OF pass "1.prems"(2)]
    have "length ns' = length ns1 \<and> (\<forall>k<length ns1. debtRank (ns1 ! k) \<le> debtRank (ns' ! k))"
      using "1.IH"[OF True pass refl refl rec pm(3)] .
    with pm show ?thesis by (metis order_trans)
  qed
qed

lemma applyShock_rank: "0 \<le> debtRank (applyShock sh r n) \<and> debtRank (applyShock sh r n) \<le> 1"
  by (simp add: applyShock_def markInitial_def initialRank_def clamp_def Let_def)

lemma phase1_rank:
  "n \<in> set (phase1 sh rnd ns) \<Longrightarrow> 0 \<le> debtRank n \<and> debtRank n \<le> 1"
  using applyShock_rank by (auto simp: phase1_def)

lemma staticFields_update: "staticFields (n\<lparr>debtRank := r\<rparr>) = staticFields n"
  by (simp add: staticFields_def)

lemma updateRanks_static:
  "updateRanks adjm n cur prev js (ns, hc, t) = Inr (ns', hc', t') \<Longrightarrow>
   map staticFields ns' = map staticFields ns"
proof (induction js arbitrary: ns hc t)
  case Nil
  then show ?case by simp
next
  case (Cons j js)
  from Cons.prems have jlt: "j < length ns"
    by (auto split: if_splits)
  show ?case
  proof (cases "debtRank (ns ! j) < 1")
    case False
    with Cons.prems jlt have "updateRanks adjm n cur prev js (ns, hc, t) = Inr (ns', hc', t')"
      by simp
    from Cons.IH[OF this] show ?thesis .
  next
    case True
    with Cons.prems jlt obtain p where p: "sumPropagated adjm ns cur prev j [0..<n] 0 = Inr p"
      by (auto split: sum.splits)
    define newRank where
      "newRank = clamp (debtRank (ns ! j) + (1 - debtRank (ns ! j)) * p) (debtRank (ns ! j)) 1"
    define ns1 where "ns1 = ns[j := (ns ! j)\<lparr>debtRank := newRank\<rparr>]"
    obtain hc1 t1 where rec: "updateRanks adjm n cur prev js (ns1, hc1, t1) = Inr (ns', hc', t')"
      using Cons.prems jlt True p by (simp add: Let_def newRank_def ns1_def)
    have "map staticFields ns1 = map staticFields ns"
      using jlt
      by (intro nth_equalityI) (simp_all add: ns1_def nth_list_update staticFields_update)
    with Cons.IH[OF rec] show ?thesis by simp
  qed
qed

lemma staticFields_reEvaluate: "staticFields (reEvaluate n) = staticFields n"
  by (simp add: reEvaluate_def Let_def staticFields_def)

lemma staticFields_applyShock: "staticFields (applyShock sh r n) = staticFields n"
  by (simp add: applyShock_def markInitial_def shockCapital_def Let_def staticFields_def
      split: shock.split)

lemma staticFields_workingCopy: "staticFields (workingCopy n) = staticFields n"
  by (simp add: workingCopy_def staticFields_def)

lemma map_staticFields_phase1:
  "map staticFields (phase1 sh rnd ns) = map staticFields ns"
  by (rule nth_equalityI) (simp_all add: phase1_def nth_enumerate_eq staticFields_applyShock)

lemma phase2_pass_static:
  assumes "phase2_pass N adjm ns prev = Inr (ns', cur, conv)"
  shows "map staticFields ns' = map staticFields ns"
proof -
  from assms obtain ns1 hc t where
    upd: "updateRanks adjm (nat N) (map debtRank ns) prev [0..<nat N] (ns, True, 0) = Inr (ns1, hc, t)"
    and ns': "ns' = map reEvaluate ns1"
    by (auto simp: phase2_pass_def rankUpdate_def split: sum.splits)
  have "map staticFields ns' = map staticFields ns1"
    by (simp add: ns' staticFields_reEvaluate)
  with updateRanks_static[OF upd] show ?thesis by simp
qed

lemma phase2_loop_static:
  "phase2_loop N adjm ns prev it hc = Inr (ns', it', hc') \<Longrightarrow>
   map staticFields ns' = map staticFields ns"
proof (induction N adjm ns prev it hc rule: phase2_loop.induct)
  case (1 N adjm ns prev it hc)
  show ?case
  proof (cases "\<not> hc \<and> it < MAX_ITERATIONS")
    case False
    then have "phase2_loop N adjm ns prev it hc = Inr (ns, it, hc)"
      by (intro phase2_loop_done) auto
    with "1.prems" show ?thesis by simp
  next
    case True
    then obtain ns1 cur hc1 where pass: "phase2_pass N adjm ns prev = Inr (ns1, cur, hc1)"
      using "1.prems"(1) by (cases "phase2_pass N adjm ns prev") (auto simp: phase2_loop_error)
    have rec: "phase2_loop N adjm ns1 cur (Suc it) hc1 = Inr (ns', it', hc')"
      using phase2_loop_step[of hc it N adjm ns prev ns1 cur hc1] True pass "1.prems"(1) by simp
    from "1.IH"[OF True pass refl refl rec] phase2_pass_static[OF pass] show ?thesis by simp
  qed
qed

text \<open>
  A run keeps the static fields of every bank, position by position, up to the sort at its
  end, and it keeps the matrix.
\<close>

lemma runPhases_static:
  assumes "runPhases N net sh rnd = Inr (fs, it, c)"
  shows "map staticFields fs = map staticFields (nodes net)"
proof -
  from assms
  have "map staticFields fs = map staticFields (phase1 sh rnd (map workingCopy (nodes net)))"
    by (auto simp: runPhases_def Let_def dest: phase2_loop_static)
  also have "\<dots> = map staticFields (map workingCopy (nodes net))"
    by (rule map_staticFields_phase1)
  also have "\<dots> = map staticFields (nodes net)"
    by (simp add: staticFields_workingCopy)
  finally show ?thesis .
qed

lemma runPhases_ids:
  assumes "runPhases N net sh rnd = Inr (fs, it, c)"
  shows "map node_id fs = map node_id (nodes net)"
proof -
  have "map node_id fs = map (fst \<circ> staticFields) fs"
    by (simp add: staticFields_def comp_def)
  also have "\<dots> = map fst (map staticFields (nodes net))"
    using runPhases_static[OF assms] by (simp flip: map_map)
  also have "\<dots> = map node_id (nodes net)"
    by (simp add: staticFields_def comp_def)
  finally show ?thesis .
qed

text \<open>
  The working copy, and with it the whole run, depends on the banks of the input only
  through their static fields and their order.
\<close>

lemma workingCopy_fields:
  "workingCopy n = \<lparr>node_id = node_id n, name = name n, A = A n, E_initial = E_initial n,
      E = E_initial n, L = L n, isFailed = False, debtRank = 0, stressLevel = 0,
      L_interbank = L_interbank n, A_interbank = A_interbank n, A_external = A_external n\<rparr>"
  by (cases n) (simp add: workingCopy_def)

lemma workingCopy_static:
  assumes "staticFields n1 = staticFields n2"
  shows "workingCopy n1 = workingCopy n2"
proof -
  note workingCopy_fields[of n1]
  moreover note workingCopy_fields[of n2]
  ultimately show ?thesis
    using assms by (simp add: staticFields_def)
qed

lemma runPhases_depends_on_static:
  assumes "map staticFields (nodes net1) = map staticFields (nodes net2)"
    and "adj net1 = adj net2"
  shows "runPhases N net1 sh rnd = runPhases N net2 sh rnd"
proof -
  have len: "length (nodes net1) = length (nodes net2)"
    using assms(1) by (rule map_eq_imp_length_eq)
  have "map workingCopy (nodes net1) = map workingCopy (nodes net2)"
  proof (rule nth_equalityI)
    show "length (map workingCopy (nodes net1)) = length (map workingCopy (nodes net2))"
      using len by simp
  next
    fix i assume "i < length (map workingCopy (nodes net1))"
    then have i: "i < length (nodes net1)" by simp
    then have "map staticFields (nodes net1) ! i = staticFields (nodes net1 ! i)" by simp
    moreover have "map staticFields (nodes net2) ! i = staticFields (nodes net2 ! i)"
      using i len by simp
    ultimately have "staticFields (nodes net1 ! i) = staticFields (nodes net2 ! i)"
      using assms(1) by simp
    then have "workingCopy (nodes net1 ! i) = workingCopy (nodes net2 ! i)"
      by (rule workingCopy_static)
    then show "map workingCopy (nodes net1) ! i = map workingCopy (nodes net2) ! i"
      using i len by simp
  qed
  then show ?thesis
    unfolding runPhases_def by (simp only: assms(2))
qed

lemma updateMetricsDashboard_Inr:
  assumes "updateMetricsDashboard net = Inr net'"
  shows "nodes net' = sort_key (\<lambda>n. - debtRank n) (nodes net)" and "adj net' = adj net"
  using assms by (auto simp: updateMetricsDashboard_def Let_def split: if_splits)

lemma updateMetricsDashboard_total:
  assumes "\<forall>n\<in>set (nodes net). node_id n < length (adj net)"
  shows "updateMetricsDashboard net = Inr (net\<lparr>nodes := sort_key (\<lambda>n. - debtRank n) (nodes net)\<rparr>)"
  using assms by (simp add: updateMetricsDashboard_def Let_def list_all_iff)

subsection \<open>The state after the last pass\<close>

lemma failedConsistent_reEvaluate: "failedConsistent (reEvaluate n)"
  by (simp add: failedConsistent_def reEvaluate_def Let_def)

lemma phase2_pass_reEvaluated:
  "phase2_pass N adjm ns prev = Inr (ns', cur, conv) \<Longrightarrow> \<forall>n\<in>set ns'. failedConsistent n"
  by (auto simp: phase2_pass_def failedConsistent_reEvaluate split: sum.splits)

lemma phase2_loop_consistent:
  "phase2_loop N adjm ns prev it hc = Inr (ns', it', hc') \<Longrightarrow>
   (\<not> hc \<and> it < MAX_ITERATIONS) \<or> (\<forall>n\<in>set ns. failedConsistent n) \<Longrightarrow>
   \<forall>n\<in>set ns'. failedConsistent n"
proof (induction N adjm ns prev it hc rule: phase2_loop.induct)
  case (1 N adjm ns prev it hc)
  show ?case
  proof (cases "\<not> hc \<and> it < MAX_ITERATIONS")
    case False
    then have "phase2_loop N adjm ns prev it hc = Inr (ns, it, hc)"
      by (intro phase2_loop_done) auto
    with "1.prems" False show ?thesis by auto
  next
    case True
    then obtain ns1 cur hc1 where pass: "phase2_pass N adjm ns prev = Inr (ns1, cur, hc1)"
      using "1.prems"(1) by (cases "phase2_pass N adjm ns prev") (auto simp: phase2_loop_error)
    have rec: "phase2_loop N adjm ns1 cur (Suc it) hc1 = Inr (ns', it', hc')"
      using phase2_loop_step[of hc it N adjm ns prev ns1 cur hc1] True pass "1.prems"(1) by simp
    show ?thesis
      using "1.IH"[OF True pass refl refl rec] phase2_pass_reEvaluated[OF pass] by blast
  qed
qed

subsection \<open>No exception on a network of the right size\<close>

lemma sumPropagated_total:
  "\<forall>i\<in>set is. i < length adjm \<and> i < length ns \<Longrightarrow>
   \<exists>p. sumPropagated adjm ns cur prev j is acc = Inr p"
  by (induction "is" arbitrary: acc) auto

lemma updateRanks_total:
  "n \<le> length adjm \<Longrightarrow> n \<le> length ns \<Longrightarrow> \<forall>j\<in>set js. j < length ns \<Longrightarrow>
   \<exists>ns' hc' t'. updateRanks adjm n cur prev js (ns, hc, t) = Inr (ns', hc', t')
      \<and> length ns' = length ns"
proof (induction js arbitrary: ns hc t)
  case Nil
  then show ?case by simp
next
  case (Cons j js)
  obtain p where p: "sumPropagated adjm ns cur prev j [0..<n] 0 = Inr p"
    using sumPropagated_total[of "[0..<n]" adjm ns cur prev j 0] Cons.prems by auto
  show ?case
  proof (cases "debtRank (ns ! j) < 1")
    case False
    then show ?thesis using Cons by simp
  next
    case True
    define newRank where
      "newRank = clamp (debtRank (ns ! j) + (1 - debtRank (ns ! j)) * p) (debtRank (ns ! j)) 1"
    define ns1 where "ns1 = ns[j := (ns ! j)\<lparr>debtRank := newRank\<rparr>]"
    have len1: "length ns1 = length ns" by (simp add: ns1_def)
    obtain hc1 t1 where step: "updateRanks adjm n cur prev (j # js) (ns, hc, t)
        = updateRanks adjm n cur prev js (ns1, hc1, t1)"
      using Cons.prems True p by (simp add: Let_def newRank_def ns1_def)
    have "\<exists>ns' hc' t'. updateRanks adjm n cur prev js (ns1, hc1, t1) = Inr (ns', hc', t')
      \<and> length ns' = length ns1"
      using Cons.prems len1 by (intro Cons.IH) simp_all
    then show ?thesis using step len1 by simp
  qed
qed

lemma phase2_pass_total:
  assumes "nat N \<le> length adjm" and "nat N \<le> length ns"
  shows "\<exists>ns' conv. phase2_pass N adjm ns prev = Inr (ns', map debtRank ns, conv)
           \<and> length ns' = length ns"
proof -
  obtain ns1 hc t where "rankUpdate N adjm ns prev = Inr (ns1, hc, t)" "length ns1 = length ns"
    unfolding rankUpdate_def
    using updateRanks_total[of "nat N" adjm ns "[0..<nat N]" "map debtRank ns" prev True 0] assms
    by auto
  then show ?thesis by (simp add: phase2_pass_def)
qed

lemma phase2_loop_total:
  "nat N \<le> length adjm \<Longrightarrow> nat N \<le> length ns \<Longrightarrow>
   \<exists>ns' it' hc'. phase2_loop N adjm ns prev it hc = Inr (ns', it', hc')
      \<and> length ns' = length ns \<and> it' \<le> max it MAX_ITERATIONS"
proof (induction N adjm ns prev it hc rule: phase2_loop.induct)
  case (1 N adjm ns prev it hc)
  show ?case
  proof (cases "\<not> hc \<and> it < MAX_ITERATIONS")
    case False
    then have "phase2_loop N adjm ns prev it hc = Inr (ns, it, hc)"
      by (intro phase2_loop_done) auto
    then show ?thesis by simp
  next
    case True
    obtain ns1 hc1 where pass: "phase2_pass N adjm ns prev = Inr (ns1, map debtRank ns, hc1)"
      and len1: "length ns1 = length ns"
      using phase2_pass_total[OF "1.prems"] by blast
    have step: "phase2_loop N adjm ns prev it hc
        = phase2_loop N adjm ns1 (map debtRank ns) (Suc it) hc1"
      using True pass by (intro phase2_loop_step) simp_all
    have "\<exists>ns' it' hc'. phase2_loop N adjm ns1 (map debtRank ns) (Suc it) hc1 = Inr (ns', it', hc')
      \<and> length ns' = length ns1 \<and> it' \<le> max (Suc it) MAX_ITERATIONS"
      using "1.IH"[OF True pass refl refl] "1.prems" len1 by simp
    then show ?thesis using step len1 True by (auto simp: max_def split: if_splits)
  qed
qed

subsection \<open>The convergence flag\<close>

lemma updateRanks_flags:
  "updateRanks adjm n cur prev js (ns, hc, t) = Inr (ns', hc', t') \<Longrightarrow> distinct js \<Longrightarrow>
   flagsInv hc t \<Longrightarrow>
   flagsInv hc' t' \<and> length ns' = length ns \<and>
   (\<forall>k<length ns. k \<notin> set js \<longrightarrow> ns' ! k = ns ! k) \<and>
   (hc' \<longleftrightarrow> hc \<and> (\<forall>j\<in>set js. \<bar>debtRank (ns' ! j) - debtRank (ns ! j)\<bar> \<le> DEBT_RANK_TOLERANCE))"
proof (induction js arbitrary: ns hc t)
  case Nil
  then show ?case by simp
next
  case (Cons j js)
  from Cons.prems(1) have jlt: "j < length ns"
    by (auto split: if_splits)
  from Cons.prems(2) have dj: "j \<notin> set js" and djs: "distinct js" by simp_all
  show ?case
  proof (cases "debtRank (ns ! j) < 1")
    case False
    with Cons.prems jlt have rec: "updateRanks adjm n cur prev js (ns, hc, t) = Inr (ns', hc', t')"
      by simp
    note ih = Cons.IH[OF rec djs Cons.prems(3)]
    from ih jlt dj have "ns' ! j = ns ! j" by simp
    with ih show ?thesis by (auto simp: DEBT_RANK_TOLERANCE_def)
  next
    case True
    with Cons.prems jlt obtain p where p: "sumPropagated adjm ns cur prev j [0..<n] 0 = Inr p"
      by (auto split: sum.splits)
    define newRank where
      "newRank = clamp (debtRank (ns ! j) + (1 - debtRank (ns ! j)) * p) (debtRank (ns ! j)) 1"
    define changed where "changed \<longleftrightarrow> \<bar>newRank - debtRank (ns ! j)\<bar> > DEBT_RANK_TOLERANCE"
    define ns1 where "ns1 = ns[j := (ns ! j)\<lparr>debtRank := newRank\<rparr>]"
    define hc1 where "hc1 = (if changed then False else hc)"
    define t1 where "t1 = (if changed then t + \<bar>newRank - debtRank (ns ! j)\<bar> else t)"
    have rec: "updateRanks adjm n cur prev js (ns1, hc1, t1) = Inr (ns', hc', t')"
      using Cons.prems(1) jlt True p
      by (cases changed) (simp_all add: Let_def newRank_def ns1_def changed_def hc1_def t1_def)
    have inv1: "flagsInv hc1 t1"
      using Cons.prems(3)
      by (auto simp: flagsInv_def hc1_def t1_def changed_def DEBT_RANK_TOLERANCE_def
          split: if_splits)
    note ih = Cons.IH[OF rec djs inv1]
    have ih1: "flagsInv hc' t'" and ih2: "length ns' = length ns1"
      and ih3: "\<forall>k<length ns1. k \<notin> set js \<longrightarrow> ns' ! k = ns1 ! k"
      and ih4: "hc' \<longleftrightarrow> hc1 \<and> (\<forall>i\<in>set js. \<bar>debtRank (ns' ! i) - debtRank (ns1 ! i)\<bar> \<le> DEBT_RANK_TOLERANCE)"
      using ih by blast+
    have len1: "length ns1 = length ns" by (simp add: ns1_def)
    have "ns' ! j = ns1 ! j" using ih3 jlt dj len1 by simp
    then have atj: "debtRank (ns' ! j) = newRank"
      using jlt by (simp add: ns1_def)
    have others: "\<forall>k<length ns. k \<noteq> j \<longrightarrow> ns1 ! k = ns ! k"
      by (simp add: ns1_def)
    have a: "flagsInv hc' t' \<and> length ns' = length ns" using ih1 ih2 len1 by simp
    have b: "\<forall>k<length ns. k \<notin> set (j # js) \<longrightarrow> ns' ! k = ns ! k"
      using ih3 len1 others by simp
    have c: "\<forall>i\<in>set js. debtRank (ns1 ! i) = debtRank (ns ! i)"
    proof
      fix i assume "i \<in> set js"
      with dj have "j \<noteq> i" by auto
      then show "debtRank (ns1 ! i) = debtRank (ns ! i)"
        by (simp add: ns1_def)
    qed
    have e: "hc1 \<longleftrightarrow> hc \<and> \<bar>debtRank (ns' ! j) - debtRank (ns ! j)\<bar> \<le> DEBT_RANK_TOLERANCE"
      by (auto simp: hc1_def changed_def atj)
    have d: "hc' \<longleftrightarrow> hc \<and> (\<forall>i\<in>set (j # js). \<bar>debtRank (ns' ! i) - debtRank (ns ! i)\<bar> \<le> DEBT_RANK_TOLERANCE)"
      using ih4 c e by auto
    from a b d show ?thesis by blast
  qed
qed

lemma rankUpdate_flags:
  assumes "rankUpdate N adjm ns prev = Inr (ns1, hc, t)"
  shows "(if t < DEBT_RANK_TOLERANCE then True else hc)
      \<longleftrightarrow> (\<forall>j<nat N. \<bar>debtRank (ns1 ! j) - debtRank (ns ! j)\<bar> \<le> DEBT_RANK_TOLERANCE)"
proof -
  have "flagsInv True 0" by (simp add: flagsInv_def)
  from updateRanks_flags[OF assms[unfolded rankUpdate_def] _ this]
  have inv: "flagsInv hc t"
    and hc: "hc \<longleftrightarrow> (\<forall>j<nat N. \<bar>debtRank (ns1 ! j) - debtRank (ns ! j)\<bar> \<le> DEBT_RANK_TOLERANCE)"
    by auto
  from inv have "(if t < DEBT_RANK_TOLERANCE then True else hc) = hc"
    by (auto simp: flagsInv_def DEBT_RANK_TOLERANCE_def split: if_splits)
  with hc show ?thesis by simp
qed


subsection \<open>The random shock\<close>

lemma random_shock_selected:
  assumes "0 < E_initial n" and "r < 0.1"
  shows "applyShock Random r (workingCopy n)
      = (workingCopy n)\<lparr>E := E_initial n - E_initial n * 0.8, debtRank := 0.8, stressLevel := 1\<rparr>"
proof -
  have q: "(E_initial n - E_initial n * 0.8) / E_initial n = 0.2"
    using assms(1) by (simp add: field_simps)
  show ?thesis
    using assms
    by (simp add: applyShock_def shockCapital_def markInitial_def initialRank_def Let_def
        workingCopy_def clamp_def q)
qed

section \<open>The claims about the stress test\<close>

subsection \<open>Evaluation of the examples\<close>

lemma upt_3: "[0..<3] = [0, 1, 2]"
  by (simp add: upt_rec)

lemma upt_5: "[0..<5] = [0, 1, 2, 3, 4]"
  by (simp add: upt_rec)

lemma upt_2: "[0..<2] = [0, 1]"
  by (simp add: upt_rec)

lemmas phase1_eval = phase1_def bank_def workingCopy_def applyShock_def shockCapital_def
  markInitial_def initialRank_def clamp_def Let_def enumerate_eq_zip MACRO_LOSS_FACTOR_def

lemmas phase2_eval = reEvaluate_def initialRanksOf_def js_set_def phase2_pass_def rankUpdate_def
  failedBank_def DEBT_RANK_TOLERANCE_def MAX_ITERATIONS_def phase2_loop.simps

lemmas run_eval = runSimulation_def runPhases_def updateMetricsDashboard_def

lemma wf_targetedScenario: "wf_network 5 targetedScenario"
  by (simp add: wf_network_def targetedScenario_def bank_def upt_5)

lemma wf_chainNet: "wf_network 3 chainNet"
  by (simp add: wf_network_def chainNet_def bank_def upt_3)

lemma wf_pairNet: "wf_network 2 pairNet"
  by (simp add: wf_network_def pairNet_def bank_def upt_2)

lemma runPhases_wf:
  assumes "wf_network N net"
  shows "runPhases N net sh rnd
      = Inr (map reEvaluate (phase1 sh rnd (map workingCopy (nodes net))), 1, True)"
proof -
  define ns where "ns = phase1 sh rnd (map workingCopy (nodes net))"
  have eq: "initialRanksOf ns = map debtRank ns" and len: "length ns = nat N"
    using wf_first_pass[OF assms ns_def] by simp_all
  have la: "length (adj net) = nat N"
    using assms by (simp add: wf_network_def)
  have pass: "phase2_pass N (adj net) ns (initialRanksOf ns)
      = Inr (map reEvaluate ns, map debtRank ns, True)"
    using phase2_pass_fixed(2)[of N "adj net" ns "initialRanksOf ns"] eq len la by simp
  have "phase2_loop N (adj net) ns (initialRanksOf ns) 0 False
      = phase2_loop N (adj net) (map reEvaluate ns) (map debtRank ns) (Suc 0) True"
    using pass MAX_ITERATIONS_pos by (intro phase2_loop_step) simp_all
  also have "\<dots> = Inr (map reEvaluate ns, 1, True)"
    by (simp add: phase2_loop_done)
  finally show ?thesis
    by (simp add: runPhases_def Let_def ns_def)
qed

lemma chain_first_run:
  "runSimulation 3 chainNet (Targeted 1) rnd = Inr chainNetAfterRun"
  by (simp add: run_eval chainNet_def chainNetAfterRun_def phase1_eval phase2_eval upt_3)

lemma pair_first_run:
  "runSimulation 2 pairNet (Targeted 1) rnd = Inr pairNetAfterRun"
  by (simp add: run_eval pairNet_def pairNetAfterRun_def phase1_eval phase2_eval upt_2)

lemma chain_second_phase1:
  "phase1 (Targeted 1) rnd (map workingCopy (nodes chainNetAfterRun))
     = [(bank 1 10000 1000 600 900)\<lparr>E := - 1, isFailed := True, debtRank := 1, stressLevel := 2\<rparr>,
        bank 0 10000 1000 900 0, bank 2 10000 1000 0 600]"
  by (simp add: chainNetAfterRun_def chainNet_def phase1_eval failedBank_def upt_3)

lemma chain_second_pass:
  "phase2_pass 3 (adj chainNetAfterRun)
     [(bank 1 10000 1000 600 900)\<lparr>E := - 1, isFailed := True, debtRank := 1, stressLevel := 2\<rparr>,
      bank 0 10000 1000 900 0, bank 2 10000 1000 0 600] [0, 1, 0]
   = Inr ([failedBank (bank 1 10000 1000 600 900), failedBank (bank 0 10000 1000 900 0),
           bank 2 10000 1000 0 600], [1, 0, 0], False)"
  by (simp add: chainNetAfterRun_def chainNet_def bank_def phase2_eval clamp_def upt_3)

lemma chain_second_run:
  "runSimulation 3 chainNetAfterRun (Targeted 1) rnd
     = Inr (chainNet\<lparr>nodes := [failedBank (bank 1 10000 1000 600 900),
                               failedBank (bank 0 10000 1000 900 0),
                               (bank 2 10000 1000 0 600)\<lparr>E := 1000 / 3, debtRank := 2 / 3,
                                                          stressLevel := 1\<rparr>]\<rparr>)"
  by (simp add: run_eval chainNetAfterRun_def chainNet_def phase1_eval phase2_eval upt_3)


lemma chain_second_phases:
  "runPhases 3 chainNetAfterRun (Targeted 1) rnd
     = Inr ([failedBank (bank 1 10000 1000 600 900), failedBank (bank 0 10000 1000 900 0),
             (bank 2 10000 1000 0 600)\<lparr>E := 1000 / 3, debtRank := 2 / 3, stressLevel := 1\<rparr>],
            3, True)"
  by (simp add: runPhases_def chainNetAfterRun_def chainNet_def phase1_eval phase2_eval upt_3)

lemma pair_second_phase1:
  "phase1 (Targeted 1) rnd (map workingCopy (nodes pairNetAfterRun)) = pairSecondStart"
  by (simp add: pairNetAfterRun_def pairNet_def pairSecondStart_def phase1_eval failedBank_def
      upt_2)

lemma pair_second_update:
  "rankUpdate 2 (adj pairNetAfterRun) pairSecondStart (initialRanksOf pairSecondStart)
     = Inr ([(bank 1 20000 2000 10000 1)\<lparr>E := - 1, isFailed := True, debtRank := 1,
                                           stressLevel := 2\<rparr>,
             (bank 0 10000 1000 1 5000)\<lparr>debtRank := 1 / 10000\<rparr>], True, 0)"
  by (simp add: pairNetAfterRun_def pairNet_def pairSecondStart_def bank_def phase2_eval
      clamp_def upt_2)

subsection \<open>Claim C1\<close>

text \<open>
  Claim C1. In the targeted-shock scenario (five banks, bank 0 owes all of its interbank
  liability to bank 1, \<open>L_interbank = L\<close> for bank 0) a stress test targeted at bank 0 should
  fail bank 0 with rank 1 in Phase 1, raise the rank of bank 1 strictly in the first pass of
  Phase 2, and leave banks 2, 3 and 4 at rank 0.

  The code does the first and the last. For bank 1 the sum of propagated losses is 0,
  although its only debtor went from rank 0 to rank 1 with weight \<open>900 / 900\<close>: the array
  \<^verbatim>\<open>previousRanks\<close> starts as a copy of the Phase-1 ranks, so the first pass sees no change.
  The run stops after that pass with bank 1 at rank 0 and its capital untouched.
\<close>

theorem targeted_scenario_leaves_bank1_unchanged:
  "phase1 (Targeted 0) rnd (map workingCopy (nodes targetedScenario))
     = [(bank 0 1000 100 900 0)\<lparr>E := - 1, isFailed := True, debtRank := 1, stressLevel := 2\<rparr>,
        bank 1 1000 100 0 900, bank 2 1000 100 100 0, bank 3 1000 100 50 100,
        bank 4 1000 100 0 50]
   \<and> sumPropagated (adj targetedScenario)
        (phase1 (Targeted 0) rnd (map workingCopy (nodes targetedScenario)))
        [1, 0, 0, 0, 0] [1, 0, 0, 0, 0] 1 [0..<5] 0 = Inr 0
   \<and> initialRanksOf (phase1 (Targeted 0) rnd (map workingCopy (nodes targetedScenario)))
        = [1, 0, 0, 0, 0]
   \<and> runPhases 5 targetedScenario (Targeted 0) rnd
        = Inr ([failedBank (bank 0 1000 100 900 0), bank 1 1000 100 0 900,
                bank 2 1000 100 100 0, bank 3 1000 100 50 100, bank 4 1000 100 0 50], 1, True)
   \<and> debtRank (bank 1 1000 100 0 900) = 0"
  by (simp add: runPhases_def targetedScenario_def phase1_eval phase2_eval upt_5)

subsection \<open>Claim C2\<close>

text \<open>
  Claim C2. For every network snapshot and every outcome of Phase 1, the loop of Phase 2
  converges on its first pass with no propagation: \<^verbatim>\<open>previousRanks\<close> starts as the Phase-1
  ranks and \<^verbatim>\<open>currentRanks\<close> is read from the same ranks, so every debtor's change is 0, no
  rank changes in the pass, and each bank ends with its Phase-1 rank, except that a bank
  with rank at least 0.9999 or with no capital left is forced to rank 1, failed, \<open>E = 0\<close>.

  \<^verbatim>\<open>initialRanks\<close> is indexed by identifier and \<^verbatim>\<open>currentRanks\<close> by position. The two are the
  same array only while every bank stands at the position of its identifier. A finished
  run leaves the banks sorted by rank, and the next run starts from that state: on the
  chain, after a run targeted at bank 1, the same run again starts Phase 2 with
  \<^verbatim>\<open>previousRanks\<close> \<open>[0, 1, 0]\<close> against \<^verbatim>\<open>currentRanks\<close> \<open>[1, 0, 0]\<close>, propagates \<open>3 / 2\<close> to the
  bank at position 1 in its first pass and takes three passes.
\<close>

theorem second_run_propagates_in_first_pass:
  "runSimulation 3 chainNet (Targeted 1) halfDraws = Inr chainNetAfterRun
   \<and> phase1 (Targeted 1) halfDraws (map workingCopy (nodes chainNetAfterRun)) = chainSecondStart
   \<and> map debtRank chainSecondStart = [1, 0, 0]
   \<and> initialRanksOf chainSecondStart = [0, 1, 0]
   \<and> sumPropagated (adj chainNetAfterRun) chainSecondStart (map debtRank chainSecondStart)
         (initialRanksOf chainSecondStart) 1 [0..<3] 0 = Inr (3 / 2)
   \<and> runPhases 3 chainNetAfterRun (Targeted 1) halfDraws
       = Inr ([failedBank (bank 1 10000 1000 600 900), failedBank (bank 0 10000 1000 900 0),
               (bank 2 10000 1000 0 600)\<lparr>E := 1000 / 3, debtRank := 2 / 3, stressLevel := 1\<rparr>],
              3, True)"
proof -
  have p: "phase1 (Targeted 1) halfDraws (map workingCopy (nodes chainNetAfterRun))
      = chainSecondStart"
    using chain_second_phase1[of halfDraws] by (simp add: chainSecondStart_def)
  have r: "map debtRank chainSecondStart = [1, 0, 0]"
    by (simp add: chainSecondStart_def bank_def)
  have i: "initialRanksOf chainSecondStart = [0, 1, 0]"
    by (simp add: chainSecondStart_def bank_def initialRanksOf_def js_set_def)
  have "sumPropagated (adj chainNetAfterRun) chainSecondStart [1, 0, 0] [0, 1, 0] 1 [0..<3] 0
      = Inr (3 / 2)"
    by (simp add: chainSecondStart_def chainNetAfterRun_def chainNet_def bank_def upt_3)
  with r i
  have q: "sumPropagated (adj chainNetAfterRun) chainSecondStart (map debtRank chainSecondStart)
         (initialRanksOf chainSecondStart) 1 [0..<3] 0 = Inr (3 / 2)"
    by simp
  from chain_first_run[of halfDraws] p r i q chain_second_phases[of halfDraws]
  show ?thesis by simp
qed

text \<open>
  Claim C2 as amended: for every network in which the bank at position \<open>k\<close> has identifier
  \<open>k\<close> and the matrix has \<open>N\<close> rows (\<open>wf_network\<close>, the shape that \<^verbatim>\<open>generateNetwork\<close> builds)
  and every outcome of Phase 1, the loop of Phase 2 converges on its first pass with no
  propagation: \<^verbatim>\<open>previousRanks\<close> and \<^verbatim>\<open>currentRanks\<close> are the same ranks, every propagated sum
  is 0, no rank changes in the pass, and each bank ends with its Phase-1 rank, except that
  a bank with rank at least 0.9999 or with no capital left is forced to rank 1, failed,
  \<open>E = 0\<close>.
\<close>

theorem first_pass_converges_without_propagation:
  assumes "wf_network N net" and "ns = phase1 sh rnd (map workingCopy (nodes net))"
  shows "initialRanksOf ns = map debtRank ns
    \<and> (\<forall>j<nat N. sumPropagated (adj net) ns (map debtRank ns) (initialRanksOf ns) j [0..<nat N] 0 = Inr 0)
    \<and> rankUpdate N (adj net) ns (initialRanksOf ns) = Inr (ns, True, 0)
    \<and> runPhases N net sh rnd = Inr (map reEvaluate ns, 1, True)
    \<and> (\<forall>n\<in>set ns.
          if E_initial n * (1 - debtRank n) \<le> 0 \<or> debtRank n \<ge> 0.9999
          then debtRank (reEvaluate n) = 1 \<and> isFailed (reEvaluate n)
               \<and> stressLevel (reEvaluate n) = 2 \<and> E (reEvaluate n) = 0
          else debtRank (reEvaluate n) = debtRank n)"
proof -
  have eq: "initialRanksOf ns = map debtRank ns" and len: "length ns = nat N"
    using wf_first_pass[OF assms] by simp_all
  have la: "length (adj net) = nat N"
    using assms(1) by (simp add: wf_network_def)
  have zero: "\<forall>j<nat N. sumPropagated (adj net) ns (map debtRank ns) (initialRanksOf ns) j [0..<nat N] 0 = Inr 0"
    using eq len la by (auto intro!: sumPropagated_zero)
  have upd: "rankUpdate N (adj net) ns (initialRanksOf ns) = Inr (ns, True, 0)"
    using phase2_pass_fixed(1)[of N "adj net" ns "initialRanksOf ns"] eq len la by simp
  have run: "runPhases N net sh rnd = Inr (map reEvaluate ns, 1, True)"
    using runPhases_wf[OF assms(1)] assms(2) by simp
  have fin: "\<forall>n\<in>set ns.
          if E_initial n * (1 - debtRank n) \<le> 0 \<or> debtRank n \<ge> 0.9999
          then debtRank (reEvaluate n) = 1 \<and> isFailed (reEvaluate n)
               \<and> stressLevel (reEvaluate n) = 2 \<and> E (reEvaluate n) = 0
          else debtRank (reEvaluate n) = debtRank n"
    using reEvaluate_forced reEvaluate_rank by auto
  from eq zero upd run fin show ?thesis by blast
qed

theorem first_pass_converges_without_propagation_witness:
  "wf_network 3 chainNet
   \<and> map debtRank (phase1 (Targeted 0) halfDraws (map workingCopy (nodes chainNet))) = [1, 0, 0]
   \<and> adj chainNet ! 0 ! 1 / L_interbank (nodes chainNet ! 0) = 1
   \<and> sumPropagated (adj chainNet)
         (phase1 (Targeted 0) halfDraws (map workingCopy (nodes chainNet)))
         (map debtRank (phase1 (Targeted 0) halfDraws (map workingCopy (nodes chainNet))))
         (initialRanksOf (phase1 (Targeted 0) halfDraws (map workingCopy (nodes chainNet))))
         1 [0..<nat 3] 0 = Inr 0
   \<and> runPhases 3 chainNet (Targeted 0) halfDraws
       = Inr (map reEvaluate (phase1 (Targeted 0) halfDraws (map workingCopy (nodes chainNet))),
              1, True)
   \<and> map debtRank
         (map reEvaluate (phase1 (Targeted 0) halfDraws (map workingCopy (nodes chainNet))))
       = [1, 0, 0]"
proof -
  note inst = first_pass_converges_without_propagation[OF wf_chainNet refl,
      of "Targeted 0" halfDraws]
  have z: "sumPropagated (adj chainNet)
         (phase1 (Targeted 0) halfDraws (map workingCopy (nodes chainNet)))
         (map debtRank (phase1 (Targeted 0) halfDraws (map workingCopy (nodes chainNet))))
         (initialRanksOf (phase1 (Targeted 0) halfDraws (map workingCopy (nodes chainNet))))
         1 [0..<nat 3] 0 = Inr 0"
    using inst[THEN conjunct2, THEN conjunct1, rule_format, of 1] by simp
  have run: "runPhases 3 chainNet (Targeted 0) halfDraws
       = Inr (map reEvaluate (phase1 (Targeted 0) halfDraws (map workingCopy (nodes chainNet))),
              1, True)"
    using inst by blast
  have ranks: "map debtRank (phase1 (Targeted 0) halfDraws (map workingCopy (nodes chainNet)))
      = [1, 0, 0]"
    by (simp add: chainNet_def phase1_eval upt_3)
  have weight: "adj chainNet ! 0 ! 1 / L_interbank (nodes chainNet ! 0) = 1"
    by (simp add: chainNet_def bank_def)
  have fin: "map debtRank
         (map reEvaluate (phase1 (Targeted 0) halfDraws (map workingCopy (nodes chainNet))))
       = [1, 0, 0]"
    by (simp add: chainNet_def phase1_eval reEvaluate_def upt_3)
  from wf_chainNet ranks weight z run fin show ?thesis by blast
qed

subsection \<open>Claim C3\<close>

text \<open>
  Claim C3. The rank of every bank is monotonically non-decreasing across the whole run,
  for every shock: each update of Phase 2 sets
  \<open>newRank = clamp (debtRank + (1 - debtRank) * propagated) debtRank 1\<close>, so no pass lowers a
  rank below its value at the start of that pass.

  The first part is about one pass from any state of the loop in which the ranks are at
  most 1, as they are from Phase 1 on. The second part is about a whole run: the working
  copy starts at rank 0, Phase 1 gives a rank in \<open>[0, 1]\<close>, and the final rank is at least
  the Phase-1 rank.
\<close>

theorem debtRank_never_decreases:
  "(phase2_pass N adjm ns prev = Inr (ns', cur, conv) \<longrightarrow> (\<forall>n\<in>set ns. debtRank n \<le> 1) \<longrightarrow>
      length ns' = length ns
      \<and> (\<forall>k<length ns. debtRank (ns ! k) \<le> debtRank (ns' ! k))
      \<and> (\<forall>n\<in>set ns'. debtRank n \<le> 1))
   \<and> (runPhases N net sh rnd = Inr (fs, it, c) \<longrightarrow>
      length fs = length (nodes net)
      \<and> (\<forall>k<length fs.
            debtRank (map workingCopy (nodes net) ! k) = 0
            \<and> 0 \<le> debtRank (phase1 sh rnd (map workingCopy (nodes net)) ! k)
            \<and> debtRank (phase1 sh rnd (map workingCopy (nodes net)) ! k) \<le> debtRank (fs ! k)))"
proof (intro conjI impI)
  assume p: "phase2_pass N adjm ns prev = Inr (ns', cur, conv)" and r: "\<forall>n\<in>set ns. debtRank n \<le> 1"
  show "length ns' = length ns" using phase2_pass_mono(1)[OF p r] .
  show "\<forall>k<length ns. debtRank (ns ! k) \<le> debtRank (ns' ! k)" using phase2_pass_mono(2)[OF p r] .
  show "\<forall>n\<in>set ns'. debtRank n \<le> 1" using phase2_pass_mono(3)[OF p r] .
next
  assume run: "runPhases N net sh rnd = Inr (fs, it, c)"
  define ns1 where "ns1 = phase1 sh rnd (map workingCopy (nodes net))"
  have loop: "phase2_loop N (adj net) ns1 (initialRanksOf ns1) 0 False = Inr (fs, it, c)"
    using run by (simp add: runPhases_def Let_def ns1_def)
  have r1: "\<forall>n\<in>set ns1. 0 \<le> debtRank n \<and> debtRank n \<le> 1"
    using phase1_rank by (auto simp: ns1_def)
  then have "\<forall>n\<in>set ns1. debtRank n \<le> 1" by simp
  from phase2_loop_mono[OF loop this]
  have len: "length fs = length ns1"
    and mono: "\<forall>k<length ns1. debtRank (ns1 ! k) \<le> debtRank (fs ! k)" by simp_all
  have len1: "length ns1 = length (nodes net)"
    by (simp add: ns1_def length_phase1)
  show "length fs = length (nodes net)" using len len1 by simp
  show "\<forall>k<length fs.
            debtRank (map workingCopy (nodes net) ! k) = 0
            \<and> 0 \<le> debtRank (phase1 sh rnd (map workingCopy (nodes net)) ! k)
            \<and> debtRank (phase1 sh rnd (map workingCopy (nodes net)) ! k) \<le> debtRank (fs ! k)"
  proof (intro allI impI)
    fix k assume k: "k < length fs"
    then have k1: "k < length ns1" using len by simp
    then have "ns1 ! k \<in> set ns1" by simp
    with r1 have "0 \<le> debtRank (ns1 ! k)" by blast
    moreover have "debtRank (map workingCopy (nodes net) ! k) = 0"
      using k1 len1 by (simp add: workingCopy_def)
    ultimately show "debtRank (map workingCopy (nodes net) ! k) = 0
            \<and> 0 \<le> debtRank (phase1 sh rnd (map workingCopy (nodes net)) ! k)
            \<and> debtRank (phase1 sh rnd (map workingCopy (nodes net)) ! k) \<le> debtRank (fs ! k)"
      using mono k1 by (simp add: ns1_def)
  qed
qed

theorem debtRank_never_decreases_witness:
  "phase2_pass 3 (adj chainNetAfterRun)
     [(bank 1 10000 1000 600 900)\<lparr>E := - 1, isFailed := True, debtRank := 1, stressLevel := 2\<rparr>,
      bank 0 10000 1000 900 0, bank 2 10000 1000 0 600] [0, 1, 0]
   = Inr ([failedBank (bank 1 10000 1000 600 900), failedBank (bank 0 10000 1000 900 0),
           bank 2 10000 1000 0 600], [1, 0, 0], False)
   \<and> debtRank (bank 0 10000 1000 900 0) \<le> debtRank (failedBank (bank 0 10000 1000 900 0))
   \<and> runPhases 3 chainNetAfterRun (Targeted 1) halfDraws
     = Inr ([failedBank (bank 1 10000 1000 600 900), failedBank (bank 0 10000 1000 900 0),
             (bank 2 10000 1000 0 600)\<lparr>E := 1000 / 3, debtRank := 2 / 3, stressLevel := 1\<rparr>],
            3, True)
   \<and> debtRank (phase1 (Targeted 1) halfDraws (map workingCopy (nodes chainNetAfterRun)) ! 2)
       \<le> debtRank ((bank 2 10000 1000 0 600)\<lparr>E := 1000 / 3, debtRank := 2 / 3, stressLevel := 1\<rparr>)"
proof -
  let ?start = "[(bank 1 10000 1000 600 900)\<lparr>E := - 1, isFailed := True, debtRank := 1, stressLevel := 2\<rparr>,
      bank 0 10000 1000 900 0, bank 2 10000 1000 0 600]"
  let ?fin = "[failedBank (bank 1 10000 1000 600 900), failedBank (bank 0 10000 1000 900 0),
             (bank 2 10000 1000 0 600)\<lparr>E := 1000 / 3, debtRank := 2 / 3, stressLevel := 1\<rparr>]"
  have r: "\<forall>n\<in>set ?start. debtRank n \<le> 1"
    by (simp add: bank_def)
  note inst = debtRank_never_decreases[of 3 "adj chainNetAfterRun" "?start" "[0, 1, 0]"
      "[failedBank (bank 1 10000 1000 600 900), failedBank (bank 0 10000 1000 900 0),
           bank 2 10000 1000 0 600]" "[1, 0, 0]" False chainNetAfterRun "Targeted 1" halfDraws
      "?fin" 3 True]
  from inst chain_second_pass r
  have a: "\<forall>k<length ?start. debtRank (?start ! k) \<le> debtRank ([failedBank (bank 1 10000 1000 600 900), failedBank (bank 0 10000 1000 900 0),
           bank 2 10000 1000 0 600] ! k)"
    by blast
  from inst chain_second_phases[of halfDraws]
  have b: "\<forall>k<length ?fin. debtRank (phase1 (Targeted 1) halfDraws (map workingCopy (nodes chainNetAfterRun)) ! k) \<le> debtRank (?fin ! k)"
    by blast
  from a[rule_format, of 1]
  have a1: "debtRank (bank 0 10000 1000 900 0) \<le> debtRank (failedBank (bank 0 10000 1000 900 0))"
    by simp
  from b[rule_format, of 2] have b2: "debtRank (phase1 (Targeted 1) halfDraws (map workingCopy (nodes chainNetAfterRun)) ! 2)
       \<le> debtRank ((bank 2 10000 1000 0 600)\<lparr>E := 1000 / 3, debtRank := 2 / 3, stressLevel := 1\<rparr>)"
    by simp
  from chain_second_pass a1 chain_second_phases[of halfDraws] b2 show ?thesis by blast
qed

subsection \<open>Claim C4\<close>

text \<open>
  Claim C4. The loop marks the run converged after a pass if and only if the largest rank
  change of that pass is below \<open>DEBT_RANK_TOLERANCE\<close> for every bank, and when converged it
  stops only after that pass's rank updates and the re-evaluation that follows them.

  The test in the code is \<^verbatim>\<open>Math.abs(newRank - nodes[j].debtRank) > DEBT_RANK_TOLERANCE\<close>, so a
  change equal to the tolerance also counts as converged. In the pair of banks, after a
  first run targeted at bank 1 has put bank 1 in front, a second run changes the rank of
  bank 0 by exactly the tolerance in its first pass and stops there.
\<close>

theorem converged_with_change_equal_to_tolerance:
  "runSimulation 2 pairNet (Targeted 1) halfDraws = Inr pairNetAfterRun
   \<and> phase1 (Targeted 1) halfDraws (map workingCopy (nodes pairNetAfterRun)) = pairSecondStart
   \<and> rankUpdate 2 (adj pairNetAfterRun) pairSecondStart (initialRanksOf pairSecondStart)
       = Inr ([(bank 1 20000 2000 10000 1)\<lparr>E := - 1, isFailed := True, debtRank := 1,
                                             stressLevel := 2\<rparr>,
               (bank 0 10000 1000 1 5000)\<lparr>debtRank := 1 / 10000\<rparr>], True, 0)
   \<and> \<bar>debtRank ((bank 0 10000 1000 1 5000)\<lparr>debtRank := 1 / 10000\<rparr>) - debtRank (pairSecondStart ! 1)\<bar>
       = DEBT_RANK_TOLERANCE
   \<and> \<not> \<bar>debtRank ((bank 0 10000 1000 1 5000)\<lparr>debtRank := 1 / 10000\<rparr>) - debtRank (pairSecondStart ! 1)\<bar>
       < DEBT_RANK_TOLERANCE
   \<and> runPhases 2 pairNetAfterRun (Targeted 1) halfDraws
       = Inr ([failedBank (bank 1 20000 2000 10000 1),
               (bank 0 10000 1000 1 5000)\<lparr>E := 9999 / 10, debtRank := 1 / 10000\<rparr>], 1, True)"
proof -
  have d: "\<bar>debtRank ((bank 0 10000 1000 1 5000)\<lparr>debtRank := 1 / 10000\<rparr>) - debtRank (pairSecondStart ! 1)\<bar>
       = DEBT_RANK_TOLERANCE"
    by (simp add: pairSecondStart_def bank_def DEBT_RANK_TOLERANCE_def)
  have r: "runPhases 2 pairNetAfterRun (Targeted 1) halfDraws
       = Inr ([failedBank (bank 1 20000 2000 10000 1),
               (bank 0 10000 1000 1 5000)\<lparr>E := 9999 / 10, debtRank := 1 / 10000\<rparr>], 1, True)"
    by (simp add: runPhases_def pairNetAfterRun_def pairNet_def phase1_eval phase2_eval upt_2)
  from pair_first_run[of halfDraws] pair_second_phase1[of halfDraws] pair_second_update d r
  show ?thesis by simp
qed

text \<open>
  Claim C4 as amended: a pass ends converged if and only if no bank's rank changed by
  more than the tolerance in it (a change equal to the tolerance converges), and the loop
  then returns the banks as the re-evaluation of that pass left them; otherwise it goes on
  with the next pass.
\<close>

theorem convergence_flag:
  assumes "phase2_pass N adjm ns prev = Inr (ns2, cur, conv)"
    and "\<not> hc" and "it < MAX_ITERATIONS"
  shows "\<exists>ns1 hc1 t1. rankUpdate N adjm ns prev = Inr (ns1, hc1, t1)
      \<and> ns2 = map reEvaluate ns1
      \<and> (conv \<longleftrightarrow> (\<forall>j<nat N. \<bar>debtRank (ns1 ! j) - debtRank (ns ! j)\<bar> \<le> DEBT_RANK_TOLERANCE))
      \<and> (conv \<longrightarrow> phase2_loop N adjm ns prev it hc = Inr (ns2, Suc it, True))
      \<and> (\<not> conv \<longrightarrow> phase2_loop N adjm ns prev it hc = phase2_loop N adjm ns2 cur (Suc it) False)"
proof -
  from assms(1) obtain ns1 hc1 t1 where
    upd: "rankUpdate N adjm ns prev = Inr (ns1, hc1, t1)"
    and ns2: "ns2 = map reEvaluate ns1"
    and conv: "conv = (if t1 < DEBT_RANK_TOLERANCE then True else hc1)"
    by (auto simp: phase2_pass_def split: sum.splits)
  have crit: "conv \<longleftrightarrow> (\<forall>j<nat N. \<bar>debtRank (ns1 ! j) - debtRank (ns ! j)\<bar> \<le> DEBT_RANK_TOLERANCE)"
    using rankUpdate_flags[OF upd] conv by simp
  have step: "phase2_loop N adjm ns prev it hc = phase2_loop N adjm ns2 cur (Suc it) conv"
    using assms by (intro phase2_loop_step) simp_all
  have stop: "conv \<longrightarrow> phase2_loop N adjm ns prev it hc = Inr (ns2, Suc it, True)"
    using step by (simp add: phase2_loop_done)
  have go: "\<not> conv \<longrightarrow> phase2_loop N adjm ns prev it hc = phase2_loop N adjm ns2 cur (Suc it) False"
    using step by simp
  from upd ns2 crit stop go show ?thesis by blast
qed

theorem convergence_flag_witness:
  "phase2_pass 2 (adj pairNetAfterRun) pairSecondStart (initialRanksOf pairSecondStart)
     = Inr ([failedBank (bank 1 20000 2000 10000 1),
             (bank 0 10000 1000 1 5000)\<lparr>E := 9999 / 10, debtRank := 1 / 10000\<rparr>], [1, 0], True)
   \<and> \<not> False \<and> 0 < MAX_ITERATIONS
   \<and> phase2_loop 2 (adj pairNetAfterRun) pairSecondStart (initialRanksOf pairSecondStart) 0 False
     = Inr ([failedBank (bank 1 20000 2000 10000 1),
             (bank 0 10000 1000 1 5000)\<lparr>E := 9999 / 10, debtRank := 1 / 10000\<rparr>], Suc 0, True)"
proof -
  have p: "phase2_pass 2 (adj pairNetAfterRun) pairSecondStart (initialRanksOf pairSecondStart)
     = Inr ([failedBank (bank 1 20000 2000 10000 1),
             (bank 0 10000 1000 1 5000)\<lparr>E := 9999 / 10, debtRank := 1 / 10000\<rparr>], [1, 0], True)"
    by (simp add: pairNetAfterRun_def pairNet_def pairSecondStart_def bank_def phase2_eval
        clamp_def upt_2)
  from convergence_flag[OF p, of False 0] MAX_ITERATIONS_pos
  have "phase2_loop 2 (adj pairNetAfterRun) pairSecondStart (initialRanksOf pairSecondStart) 0 False
     = Inr ([failedBank (bank 1 20000 2000 10000 1),
             (bank 0 10000 1000 1 5000)\<lparr>E := 9999 / 10, debtRank := 1 / 10000\<rparr>], Suc 0, True)"
    by blast
  with p MAX_ITERATIONS_pos show ?thesis by simp
qed

subsection \<open>Claim C5\<close>

text \<open>
  Claim C5. \<^verbatim>\<open>runSimulation\<close> never mutates the input snapshot: the matrix and the fields
  \<open>A\<close>, \<open>E_initial\<close>, \<open>L\<close>, \<open>L_interbank\<close>, \<open>A_interbank\<close>, \<open>A_external\<close> of every bank are
  unchanged by a run, and it works on a copy whose \<open>E\<close>, \<open>isFailed\<close>, \<open>debtRank\<close> and
  \<open>stressLevel\<close> are set afresh at the start of every run, so that repeated runs are
  independent given their random draws.

  The copy is made, the matrix and the listed fields are kept (\<open>runPhases_static\<close>,
  \<open>updateMetricsDashboard_Inr\<close>) and a run does not read the other fields of its input
  (\<open>runPhases_depends_on_static\<close>). But the run ends by storing the copy in
  \<^verbatim>\<open>network.nodes\<close> and calling \<^verbatim>\<open>renderNetwork(false)\<close>, whose dashboard update sorts that
  array in place by rank. The next run reads the banks in the sorted order, while the
  matrix and \<^verbatim>\<open>initialRanks\<close> are indexed by identifier. On the chain of three banks a run
  targeted at bank 1 fails bank 1 only; the same run repeated fails bank 0 as well and
  stresses bank 2.
\<close>

theorem second_run_depends_on_first:
  "runSimulation 3 chainNet (Targeted 1) halfDraws = Inr chainNetAfterRun
   \<and> map (\<lambda>n. (node_id n, debtRank n, isFailed n)) (nodes chainNetAfterRun)
       = [(1, 1, True), (0, 0, False), (2, 0, False)]
   \<and> adj chainNetAfterRun = adj chainNet
   \<and> runSimulation 3 chainNetAfterRun (Targeted 1) halfDraws
       = Inr (chainNet\<lparr>nodes := [failedBank (bank 1 10000 1000 600 900),
                                 failedBank (bank 0 10000 1000 900 0),
                                 (bank 2 10000 1000 0 600)\<lparr>E := 1000 / 3, debtRank := 2 / 3,
                                                            stressLevel := 1\<rparr>]\<rparr>)
   \<and> map (\<lambda>n. (node_id n, debtRank n, isFailed n))
        [failedBank (bank 1 10000 1000 600 900), failedBank (bank 0 10000 1000 900 0),
         (bank 2 10000 1000 0 600)\<lparr>E := 1000 / 3, debtRank := 2 / 3, stressLevel := 1\<rparr>]
       = [(1, 1, True), (0, 1, True), (2, 2 / 3, False)]"
  using chain_first_run[of halfDraws] chain_second_run[of halfDraws]
  by (simp add: chainNetAfterRun_def chainNet_def bank_def failedBank_def)

subsection \<open>Claim C6\<close>

text \<open>
  Claim C6. Under the random shock every bank selected by the draw (probability 0.10)
  fails in Phase 1: its capital is reduced by \<open>E0 * 0.8\<close> and it ends Phase 1 marked failed
  (\<open>isFailed\<close>, \<open>stressLevel\<close> 2, rank 1).

  A selected bank keeps a fifth of its capital. With initial capital 100 and a draw of
  0.05 it ends Phase 1 with capital 20, rank 0.8, stressed and not failed.
\<close>

theorem selected_bank_is_not_failed:
  "applyShock Random (5 / 100) (workingCopy (bank 0 1000 100 0 0))
     = (bank 0 1000 100 0 0)\<lparr>E := 20, debtRank := 8 / 10, stressLevel := 1\<rparr>
   \<and> \<not> isFailed (applyShock Random (5 / 100) (workingCopy (bank 0 1000 100 0 0)))
   \<and> stressLevel (applyShock Random (5 / 100) (workingCopy (bank 0 1000 100 0 0))) \<noteq> 2
   \<and> debtRank (applyShock Random (5 / 100) (workingCopy (bank 0 1000 100 0 0))) \<noteq> 1"
  by (simp add: phase1_eval)

text \<open>
  Claim C6 as amended: under the random shock the capital of every selected bank
  (draw below 0.1) is reduced by \<open>E0 * 0.8\<close>; a bank with positive initial capital ends
  Phase 1 with rank 0.8, stressed and not failed, and a selected bank is marked failed
  exactly when its initial capital is not positive.
\<close>

theorem random_shock_reduces_capital:
  assumes "r < 0.1"
  shows "E (shockCapital Random r (workingCopy n)) = E_initial n - E_initial n * 0.8
    \<and> (0 < E_initial n \<longrightarrow>
          applyShock Random r (workingCopy n)
            = (workingCopy n)\<lparr>E := E_initial n - E_initial n * 0.8, debtRank := 0.8,
                               stressLevel := 1\<rparr>
          \<and> \<not> isFailed (applyShock Random r (workingCopy n)))
    \<and> (isFailed (applyShock Random r (workingCopy n)) \<longleftrightarrow> E_initial n \<le> 0)"
proof -
  have a: "E (shockCapital Random r (workingCopy n)) = E_initial n - E_initial n * 0.8"
    using assms by (simp add: shockCapital_def workingCopy_def)
  have b: "0 < E_initial n \<longrightarrow>
          applyShock Random r (workingCopy n)
            = (workingCopy n)\<lparr>E := E_initial n - E_initial n * 0.8, debtRank := 0.8,
                               stressLevel := 1\<rparr>
          \<and> \<not> isFailed (applyShock Random r (workingCopy n))"
    using random_shock_selected[OF _ assms, of n] by (simp add: workingCopy_def)
  have c: "isFailed (applyShock Random r (workingCopy n)) \<longleftrightarrow> E_initial n \<le> 0"
    using assms
    by (simp add: applyShock_def shockCapital_def markInitial_def Let_def workingCopy_def)
  from a b c show ?thesis by blast
qed

theorem random_shock_reduces_capital_witness:
  "(5 / 100 :: real) < 0.1 \<and> 0 < E_initial (bank 0 1000 100 0 0)
   \<and> E (shockCapital Random (5 / 100) (workingCopy (bank 0 1000 100 0 0))) = 20
   \<and> \<not> isFailed (applyShock Random (5 / 100) (workingCopy (bank 0 1000 100 0 0)))"
proof -
  have h: "(5 / 100 :: real) < 0.1" by simp
  have e: "0 < E_initial (bank 0 1000 100 0 0)" by (simp add: bank_def)
  from random_shock_reduces_capital[OF h, of "bank 0 1000 100 0 0"] h e
  show ?thesis by (simp add: bank_def workingCopy_def)
qed

subsection \<open>Claim C7\<close>

text \<open>
  Claim C7. In the result of a stress test every bank with rank 1 is marked failed and
  has \<open>E = 0\<close>. The loop runs at least one pass, and the re-evaluation that ends the last
  pass establishes this for every bank.
\<close>

theorem full_rank_is_failed_without_capital:
  assumes "runSimulation N net sh rnd = Inr net'"
  shows "\<forall>n\<in>set (nodes net'). debtRank n = 1 \<longrightarrow> isFailed n \<and> E n = 0"
proof -
  from assms obtain fs it c where run: "runPhases N net sh rnd = Inr (fs, it, c)"
    and net': "updateMetricsDashboard (net\<lparr>nodes := fs\<rparr>) = Inr net'"
    by (auto simp: runSimulation_def split: sum.splits)
  have "\<forall>n\<in>set fs. failedConsistent n"
    using run MAX_ITERATIONS_pos
    by (auto simp: runPhases_def Let_def dest!: phase2_loop_consistent)
  moreover have "set (nodes net') = set fs"
    using updateMetricsDashboard_Inr(1)[OF net'] by simp
  ultimately show ?thesis by (simp add: failedConsistent_def)
qed

theorem full_rank_is_failed_without_capital_witness:
  "runSimulation 3 chainNet (Targeted 1) halfDraws = Inr chainNetAfterRun
   \<and> debtRank (failedBank (bank 1 10000 1000 600 900)) = 1
   \<and> isFailed (failedBank (bank 1 10000 1000 600 900))
   \<and> E (failedBank (bank 1 10000 1000 600 900)) = 0"
proof -
  note r = chain_first_run[of halfDraws]
  have m: "failedBank (bank 1 10000 1000 600 900) \<in> set (nodes chainNetAfterRun)"
    by (simp add: chainNetAfterRun_def)
  have d: "debtRank (failedBank (bank 1 10000 1000 600 900)) = 1"
    by (simp add: failedBank_def)
  from full_rank_is_failed_without_capital[OF r] m d r show ?thesis by blast
qed

subsection \<open>Claim C10\<close>

text \<open>
  Claim C10. For every network snapshot and every shock the loop of Phase 2 ends at or
  before iteration \<open>MAX_ITERATIONS\<close> (100) and the stress test returns a result; it never
  raises. Reaching the cap without convergence gives a result too.

  A snapshot for \<open>N\<close> banks has at least \<open>N\<close> banks, at least \<open>N\<close> rows and a row for
  every identifier; nothing is asked of the order of the banks or of the numbers. The
  loop is a total function: it is defined by recursion on \<open>MAX_ITERATIONS - iterations\<close>.
\<close>

theorem stress_test_returns_within_cap:
  assumes "nat N \<le> length (nodes net)" and "nat N \<le> length (adj net)"
    and "\<forall>n\<in>set (nodes net). node_id n < length (adj net)"
  shows "(\<exists>fs it conv. runPhases N net sh rnd = Inr (fs, it, conv)
            \<and> it \<le> MAX_ITERATIONS \<and> length fs = length (nodes net))
    \<and> (\<exists>net'. runSimulation N net sh rnd = Inr net')
    \<and> phase2_loop N (adj net) ns prev MAX_ITERATIONS False = Inr (ns, MAX_ITERATIONS, False)"
proof -
  define ns1 where "ns1 = phase1 sh rnd (map workingCopy (nodes net))"
  have len: "length ns1 = length (nodes net)"
    by (simp add: ns1_def length_phase1)
  obtain fs it conv where loop: "phase2_loop N (adj net) ns1 (initialRanksOf ns1) 0 False
      = Inr (fs, it, conv)" and lf: "length fs = length ns1" and it: "it \<le> max 0 MAX_ITERATIONS"
    using phase2_loop_total[of N "adj net" ns1 "initialRanksOf ns1" 0 False] assms(1,2) len
    by auto
  have run: "runPhases N net sh rnd = Inr (fs, it, conv)"
    using loop by (simp add: runPhases_def Let_def ns1_def)
  have a: "\<exists>fs it conv. runPhases N net sh rnd = Inr (fs, it, conv)
            \<and> it \<le> MAX_ITERATIONS \<and> length fs = length (nodes net)"
    using run it lf len by simp
  have "\<forall>n\<in>set fs. node_id n < length (adj net)"
  proof
    fix n assume "n \<in> set fs"
    then have "node_id n \<in> set (map node_id fs)" by simp
    then have "node_id n \<in> set (map node_id (nodes net))"
      using runPhases_ids[OF run] by simp
    then obtain m where "m \<in> set (nodes net)" and "node_id m = node_id n" by auto
    with assms(3) show "node_id n < length (adj net)" by auto
  qed
  then have "updateMetricsDashboard (net\<lparr>nodes := fs\<rparr>)
      = Inr (net\<lparr>nodes := sort_key (\<lambda>n. - debtRank n) fs\<rparr>)"
    using updateMetricsDashboard_total[of "net\<lparr>nodes := fs\<rparr>"] by simp
  then have b: "\<exists>net'. runSimulation N net sh rnd = Inr net'"
    using run by (simp add: runSimulation_def)
  have c: "phase2_loop N (adj net) ns prev MAX_ITERATIONS False = Inr (ns, MAX_ITERATIONS, False)"
    by (simp add: phase2_loop_done)
  from a b c show ?thesis by blast
qed

theorem stress_test_returns_within_cap_witness:
  "nat 3 \<le> length (nodes chainNetAfterRun) \<and> nat 3 \<le> length (adj chainNetAfterRun)
   \<and> list_all (\<lambda>n. node_id n < length (adj chainNetAfterRun)) (nodes chainNetAfterRun)
   \<and> (\<exists>fs it conv. runPhases 3 chainNetAfterRun (Targeted 1) halfDraws = Inr (fs, it, conv)
          \<and> it \<le> MAX_ITERATIONS \<and> length fs = length (nodes chainNetAfterRun))
   \<and> (\<exists>net'. runSimulation 3 chainNetAfterRun (Targeted 1) halfDraws = Inr net')"
proof -
  have a: "nat 3 \<le> length (nodes chainNetAfterRun)"
    by (simp add: chainNetAfterRun_def)
  have b: "nat 3 \<le> length (adj chainNetAfterRun)"
    by (simp add: chainNetAfterRun_def chainNet_def)
  have c: "\<forall>n\<in>set (nodes chainNetAfterRun). node_id n < length (adj chainNetAfterRun)"
    by (simp add: chainNetAfterRun_def chainNet_def bank_def failedBank_def)
  from stress_test_returns_within_cap[OF a b c, of "Targeted 1" halfDraws] a b c
  show ?thesis by (simp add: list_all_iff)
qed

section \<open>Properties of network generation\<close>

lemma sum_list_update_le:
  "\<forall>x\<in>set row. (0::real) \<le> x \<Longrightarrow> c < length row \<Longrightarrow>
   sum_list (row[c := v]) \<le> sum_list row + v"
proof (induction row arbitrary: c)
  case Nil
  then show ?case by simp
next
  case (Cons x row)
  show ?case
  proof (cases c)
    case 0
    with Cons.prems show ?thesis by simp
  next
    case (Suc d)
    with Cons.prems have "sum_list (row[d := v]) \<le> sum_list row + v"
      by (intro Cons.IH) simp_all
    with Suc show ?thesis by simp
  qed
qed

lemma js_set_bound:
  assumes "\<forall>x\<in>set row. 0 \<le> x" and "0 \<le> v"
  shows "sum_list (js_set row c v) \<le> sum_list row + v"
    and "\<forall>x\<in>set (js_set row c v). 0 \<le> x"
proof -
  show "sum_list (js_set row c v) \<le> sum_list row + v"
    using assms sum_list_update_le[of row c v] by (simp add: js_set_def sum_list_replicate)
  show "\<forall>x\<in>set (js_set row c v). 0 \<le> x"
  proof (cases "c < length row")
    case True
    then have "set (js_set row c v) \<subseteq> insert v (set row)"
      by (simp add: js_set_def set_update_subset_insert)
    with assms show ?thesis by auto
  next
    case False
    with assms show ?thesis by (auto simp: js_set_def)
  qed
qed

lemma assignShares_bound:
  "assignShares totalIBL rnd pos cs row assigned = (row', pos') \<Longrightarrow>
   \<forall>x\<in>set row. 0 \<le> x \<Longrightarrow> sum_list row \<le> assigned \<Longrightarrow> assigned \<le> totalIBL \<Longrightarrow>
   sum_list row' \<le> totalIBL \<and> (\<forall>x\<in>set row'. 0 \<le> x) \<and> length row \<le> length row'"
proof (induction cs arbitrary: pos row assigned)
  case Nil
  then show ?case by simp
next
  case (Cons creditor cs)
  define share where
    "share = min (totalIBL * (rnd pos * 0.4 + 0.1)) (totalIBL - assigned)"
  have eq: "assignShares totalIBL rnd pos (creditor # cs) row assigned
      = (if share > 0
         then assignShares totalIBL rnd (Suc pos) cs
                (js_set row (node_id creditor) share) (assigned + share)
         else assignShares totalIBL rnd (Suc pos) cs row assigned)"
    by (simp only: assignShares.simps Let_def share_def)
  show ?case
  proof (cases "share > 0")
    case False
    with Cons.prems(1)[unfolded eq]
    have "assignShares totalIBL rnd (Suc pos) cs row assigned = (row', pos')"
      by (simp only: if_False)
    from Cons.IH[OF this Cons.prems(2,3,4)] show ?thesis .
  next
    case True
    define row1 where "row1 = js_set row (node_id creditor) share"
    from True Cons.prems(1)[unfolded eq]
    have rec: "assignShares totalIBL rnd (Suc pos) cs row1 (assigned + share) = (row', pos')"
      by (simp only: if_True row1_def)
    have nn: "\<forall>x\<in>set row1. 0 \<le> x" and s1: "sum_list row1 \<le> sum_list row + share"
      using js_set_bound[OF Cons.prems(2), of share "node_id creditor"] True
      by (simp_all add: row1_def)
    have s2: "sum_list row1 \<le> assigned + share"
      using s1 Cons.prems(3) by simp
    have s3: "assigned + share \<le> totalIBL"
      by (simp add: share_def)
    have len: "length row \<le> length row1"
      by (simp add: row1_def length_js_set)
    from Cons.IH[OF rec nn s2 s3] len show ?thesis by simp
  qed
qed

lemma L_interbank_self: "\<exists>v. n = n\<lparr>L_interbank := v\<rparr>"
  by (rule exI[of _ "L_interbank n"]) simp

lemma debtorLoop_rows:
  "debtorLoop shuffleNodes rnd ks (ns, adjm, pos) = (ns', adjm', pos') \<Longrightarrow>
   distinct ks \<Longrightarrow> \<forall>k\<in>set ks. k < length ns \<and> node_id (ns ! k) = k \<Longrightarrow>
   length adjm = length ns \<Longrightarrow>
   \<forall>k\<in>set ks. (\<forall>x\<in>set (adjm ! k). 0 \<le> x) \<and> sum_list (adjm ! k) \<le> 0 \<and> 0 \<le> L (ns ! k) \<Longrightarrow>
   \<forall>p. 0 \<le> rnd p \<Longrightarrow>
   length ns' = length ns \<and> length adjm' = length adjm
   \<and> (\<forall>i<length ns. \<exists>v. ns' ! i = (ns ! i)\<lparr>L_interbank := v\<rparr>)
   \<and> (\<forall>i<length ns. i \<notin> set ks \<longrightarrow> ns' ! i = ns ! i \<and> adjm' ! i = adjm ! i)
   \<and> (\<forall>k\<in>set ks. sum_list (adjm' ! k) \<le> L_interbank (ns' ! k))"
proof (induction ks arbitrary: ns adjm pos)
  case Nil
  from Nil.prems(1) have e: "ns' = ns" "adjm' = adjm" by simp_all
  have f: "\<forall>i<length ns. \<exists>v. ns ! i = (ns ! i)\<lparr>L_interbank := v\<rparr>"
    by (intro allI impI) (rule L_interbank_self)
  show ?case
    unfolding e
  proof (intro conjI)
    show "\<forall>i<length ns. \<exists>v. ns ! i = (ns ! i)\<lparr>L_interbank := v\<rparr>" by (rule f)
  qed simp_all
next
  case (Cons k ks)
  from Cons.prems(2) have knot: "k \<notin> set ks" and dks: "distinct ks" by simp_all
  from Cons.prems(3) have klt: "k < length ns" and kid: "node_id (ns ! k) = k" by simp_all
  define totalIBL where "totalIBL = L (ns ! k) * (0.15 + rnd pos * 0.15)"
  define ns1 where "ns1 = ns[k := (ns ! k)\<lparr>L_interbank := totalIBL\<rparr>]"
  define chosen where
    "chosen = js_slice0 (shuffleNodes k (filter (\<lambda>n. node_id n \<noteq> node_id (ns ! k)) ns1))
                (\<lfloor>rnd (pos + 1) * 4\<rfloor> + 1)"
  obtain row pos1 where asg: "assignShares totalIBL rnd (pos + 2) chosen (adjm ! k) 0 = (row, pos1)"
    by (cases "assignShares totalIBL rnd (pos + 2) chosen (adjm ! k) 0")
  define adjm1 where "adjm1 = adjm[k := row]"
  have rec: "debtorLoop shuffleNodes rnd ks (ns1, adjm1, pos1) = (ns', adjm', pos')"
    using Cons.prems(1) asg kid
    by (simp add: Let_def totalIBL_def ns1_def chosen_def adjm1_def)
  have lk: "0 \<le> L (ns ! k)" and zk: "\<forall>x\<in>set (adjm ! k). 0 \<le> x" "sum_list (adjm ! k) \<le> 0"
    using Cons.prems(5) by simp_all
  have "0 \<le> rnd pos" using Cons.prems(6) by simp
  then have tpos: "0 \<le> totalIBL"
    unfolding totalIBL_def using lk by (intro mult_nonneg_nonneg add_nonneg_nonneg) simp_all
  have rowk: "sum_list row \<le> totalIBL"
    using assignShares_bound[OF asg zk(1)] zk(2) tpos by simp
  have len1: "length ns1 = length ns" "length adjm1 = length adjm"
    by (simp_all add: ns1_def adjm1_def)
  have p3: "\<forall>j\<in>set ks. j < length ns1 \<and> node_id (ns1 ! j) = j"
    using Cons.prems(3) knot by (auto simp: ns1_def nth_list_update)
  have p4: "length adjm1 = length ns1"
    using Cons.prems(4) len1 by simp
  have p5: "\<forall>j\<in>set ks. (\<forall>x\<in>set (adjm1 ! j). 0 \<le> x) \<and> sum_list (adjm1 ! j) \<le> 0 \<and> 0 \<le> L (ns1 ! j)"
  proof
    fix j assume j: "j \<in> set ks"
    with knot have "k \<noteq> j" by auto
    then have "adjm1 ! j = adjm ! j" "ns1 ! j = ns ! j"
      by (simp_all add: adjm1_def ns1_def)
    with Cons.prems(5) j
    show "(\<forall>x\<in>set (adjm1 ! j). 0 \<le> x) \<and> sum_list (adjm1 ! j) \<le> 0 \<and> 0 \<le> L (ns1 ! j)"
      by simp
  qed
  note ih = Cons.IH[OF rec dks p3 p4 p5 Cons.prems(6)]
  note ih1 = ih[THEN conjunct1]
  note ih2 = ih[THEN conjunct2, THEN conjunct1]
  note ih3 = ih[THEN conjunct2, THEN conjunct2, THEN conjunct1]
  note ih4 = ih[THEN conjunct2, THEN conjunct2, THEN conjunct2, THEN conjunct1]
  note ih5 = ih[THEN conjunct2, THEN conjunct2, THEN conjunct2, THEN conjunct2]
  have a: "length ns' = length ns \<and> length adjm' = length adjm"
    using ih1 ih2 len1 by simp
  have b: "\<forall>i<length ns. \<exists>v. ns' ! i = (ns ! i)\<lparr>L_interbank := v\<rparr>"
  proof (intro allI impI)
    fix i assume i: "i < length ns"
    then obtain v where v: "ns' ! i = (ns1 ! i)\<lparr>L_interbank := v\<rparr>"
      using ih3 len1 by auto
    show "\<exists>v. ns' ! i = (ns ! i)\<lparr>L_interbank := v\<rparr>"
    proof (cases "i = k")
      case True
      with v klt have "ns' ! i = (ns ! i)\<lparr>L_interbank := v\<rparr>"
        by (simp add: ns1_def)
      then show ?thesis ..
    next
      case False
      with v have "ns' ! i = (ns ! i)\<lparr>L_interbank := v\<rparr>"
        by (simp add: ns1_def)
      then show ?thesis ..
    qed
  qed
  have c: "\<forall>i<length ns. i \<notin> set (k # ks) \<longrightarrow> ns' ! i = ns ! i \<and> adjm' ! i = adjm ! i"
    using ih4 len1 by (auto simp: ns1_def adjm1_def)
  have atk: "ns' ! k = ns1 ! k \<and> adjm' ! k = adjm1 ! k"
    using ih4 klt knot len1 by simp
  have "sum_list (adjm' ! k) \<le> L_interbank (ns' ! k)"
    using atk rowk klt Cons.prems(4) by (simp add: ns1_def adjm1_def)
  with ih5 have d: "\<forall>j\<in>set (k # ks). sum_list (adjm' ! j) \<le> L_interbank (ns' ! j)"
    by simp
  show ?case
  proof (intro conjI)
    show "length ns' = length ns" using a by simp
    show "length adjm' = length adjm" using a by simp
    show "\<forall>i<length ns. \<exists>v. ns' ! i = (ns ! i)\<lparr>L_interbank := v\<rparr>" by (rule b)
    show "\<forall>i<length ns. i \<notin> set (k # ks) \<longrightarrow> ns' ! i = ns ! i \<and> adjm' ! i = adjm ! i"
      by (rule c)
    show "\<forall>j\<in>set (k # ks). sum_list (adjm' ! j) \<le> L_interbank (ns' ! j)" by (rule d)
  qed
qed

lemma makeNode_fields:
  "node_id (makeNode names rnd i) = i" "debtRank (makeNode names rnd i) = 0"
  by (simp_all add: makeNode_def Let_def)

lemma makeNode_L:
  assumes "0 \<le> rnd (2 * i)" and "rnd (2 * i + 1) \<le> 1"
  shows "0 \<le> L (makeNode names rnd i)"
proof -
  define a where "a = rnd (2 * i) * (ASSETS_MAX - ASSETS_MIN) + ASSETS_MIN"
  define c where "c = rnd (2 * i + 1) * (MAX_CAPITAL_RATIO - MIN_CAPITAL_RATIO) + MIN_CAPITAL_RATIO"
  have a0: "0 \<le> a"
    using assms(1) by (simp add: a_def ASSETS_MAX_def ASSETS_MIN_def)
  have c1: "c \<le> 1"
    using assms(2) by (simp add: c_def MAX_CAPITAL_RATIO_def MIN_CAPITAL_RATIO_def)
  have "L (makeNode names rnd i) = a * (1 - c)"
    by (simp add: makeNode_def Let_def a_def c_def algebra_simps)
  also have "0 \<le> a * (1 - c)"
    using a0 c1 by simp
  finally show ?thesis .
qed

lemma sort_key_const:
  "\<forall>x\<in>set xs. f x = (c::real) \<Longrightarrow> sort_key f xs = xs"
proof (rule sort_key_id_if_sorted)
  assume "\<forall>x\<in>set xs. f x = c"
  then show "sorted (map f xs)"
    by (induction xs) auto
qed

lemma node_id_finalizeNode: "node_id (finalizeNode n adjm nd) = node_id nd"
  by (simp add: finalizeNode_def Let_def)


lemma debtorLoop_frame:
  "debtorLoop shuffleNodes rnd ks (ns, adjm, pos) = (ns', adjm', pos') \<Longrightarrow>
   length ns' = length ns \<and> length adjm' = length adjm
   \<and> (\<forall>i<length ns. \<exists>v. ns' ! i = (ns ! i)\<lparr>L_interbank := v\<rparr>)"
proof (induction ks arbitrary: ns adjm pos)
  case Nil
  from Nil.prems(1) have e: "ns' = ns" "adjm' = adjm" by simp_all
  have f: "\<forall>i<length ns. \<exists>v. ns ! i = (ns ! i)\<lparr>L_interbank := v\<rparr>"
    by (intro allI impI) (rule L_interbank_self)
  show ?case
    unfolding e
  proof (intro conjI)
    show "\<forall>i<length ns. \<exists>v. ns ! i = (ns ! i)\<lparr>L_interbank := v\<rparr>" by (rule f)
  qed simp_all
next
  case (Cons k ks)
  define totalIBL where "totalIBL = L (ns ! k) * (0.15 + rnd pos * 0.15)"
  define ns1 where "ns1 = ns[k := (ns ! k)\<lparr>L_interbank := totalIBL\<rparr>]"
  define chosen where
    "chosen = js_slice0 (shuffleNodes k (filter (\<lambda>n. node_id n \<noteq> node_id (ns ! k)) ns1))
                (\<lfloor>rnd (pos + 1) * 4\<rfloor> + 1)"
  obtain row pos1 where asg:
    "assignShares totalIBL rnd (pos + 2) chosen (adjm ! node_id (ns ! k)) 0 = (row, pos1)"
    by (cases "assignShares totalIBL rnd (pos + 2) chosen (adjm ! node_id (ns ! k)) 0")
  define adjm1 where "adjm1 = adjm[node_id (ns ! k) := row]"
  have rec: "debtorLoop shuffleNodes rnd ks (ns1, adjm1, pos1) = (ns', adjm', pos')"
    using Cons.prems(1) asg
    by (simp add: Let_def totalIBL_def ns1_def chosen_def adjm1_def)
  note ih = Cons.IH[OF rec]
  note ih1 = ih[THEN conjunct1]
  note ih2 = ih[THEN conjunct2, THEN conjunct1]
  note ih3 = ih[THEN conjunct2, THEN conjunct2]
  have len1: "length ns1 = length ns" "length adjm1 = length adjm"
    by (simp_all add: ns1_def adjm1_def)
  have b: "\<forall>i<length ns. \<exists>v. ns' ! i = (ns ! i)\<lparr>L_interbank := v\<rparr>"
  proof (intro allI impI)
    fix i assume i: "i < length ns"
    then obtain v where v: "ns' ! i = (ns1 ! i)\<lparr>L_interbank := v\<rparr>"
      using ih3 len1 by auto
    have "ns' ! i = (ns ! i)\<lparr>L_interbank := v\<rparr>"
    proof (cases "i = k")
      case True
      with v i show ?thesis by (simp add: ns1_def)
    next
      case False
      with v show ?thesis by (simp add: ns1_def)
    qed
    then show "\<exists>v. ns' ! i = (ns ! i)\<lparr>L_interbank := v\<rparr>" ..
  qed
  show ?case
  proof (intro conjI)
    show "length ns' = length ns" using ih1 len1 by simp
    show "length adjm' = length adjm" using ih2 len1 by simp
    show "\<forall>i<length ns. \<exists>v. ns' ! i = (ns ! i)\<lparr>L_interbank := v\<rparr>" by (rule b)
  qed
qed

text \<open>A single bank has no creditor candidates, so its row is left as it was.\<close>

lemma debtorLoop_single:
  assumes "shuffleNodes 0 [] = []" and "node_id nd = 0"
  shows "debtorLoop shuffleNodes rnd [0] ([nd], [row], pos)
      = ([nd\<lparr>L_interbank := L nd * (0.15 + rnd pos * 0.15)\<rparr>], [row], pos + 2)"
proof -
  have f: "filter (\<lambda>n. node_id n \<noteq> node_id nd) [nd\<lparr>L_interbank := t\<rparr>] = []" for t
    by simp
  have c: "js_slice0 ([]::node list) k = []" for k
    by (simp add: js_slice0_def)
  show ?thesis
    using assms by (simp add: Let_def f c)
qed

text \<open>
  The parts of a generated network: the banks after the debtor loop and the matrix. All ranks
  are 0, so the sort at the end keeps the order.
\<close>

lemma generateNetwork_parts:
  assumes "0 \<le> N" and "N \<le> MAX_ARRAY_LENGTH"
  shows "\<exists>ns1 adj1 pos.
      debtorLoop shuffleNodes rnd [0..<nat N]
        (map (makeNode (shuffleNames (take (nat N) INDIAN_BANK_NAMES)) rnd) [0..<nat N],
         replicate (nat N) (replicate (nat N) 0), 2 * nat N) = (ns1, adj1, pos)
      \<and> generateNetwork N shuffleNames shuffleNodes rnd
          = Inr \<lparr>nodes = map (finalizeNode (nat N) adj1) ns1,
                 links = concat (map (nodeLinks (nat N) adj1) (map (finalizeNode (nat N) adj1) ns1)),
                 adj = adj1\<rparr>
      \<and> length ns1 = nat N \<and> length adj1 = nat N
      \<and> (\<forall>i<nat N. node_id (ns1 ! i) = i)"
proof -
  define names where "names = shuffleNames (take (nat N) INDIAN_BANK_NAMES)"
  define ns0 where "ns0 = map (makeNode names rnd) [0..<nat N]"
  define adj0 where "adj0 = replicate (nat N) (replicate (nat N) (0::real))"
  obtain ns1 adj1 pos where loop:
    "debtorLoop shuffleNodes rnd [0..<nat N] (ns0, adj0, 2 * nat N) = (ns1, adj1, pos)"
    by (cases "debtorLoop shuffleNodes rnd [0..<nat N] (ns0, adj0, 2 * nat N)")
  have len0: "length ns0 = nat N" "length adj0 = nat N"
    by (simp_all add: ns0_def adj0_def)
  note fr = debtorLoop_frame[OF loop]
  have len1: "length ns1 = nat N" "length adj1 = nat N"
    using fr len0 by simp_all
  have shape: "\<forall>i<nat N. \<exists>v. ns1 ! i = (makeNode names rnd i)\<lparr>L_interbank := v\<rparr>"
    using fr len0 by (simp add: ns0_def)
  have ids: "\<forall>i<nat N. node_id (ns1 ! i) = i"
  proof (intro allI impI)
    fix i assume "i < nat N"
    with shape obtain v where "ns1 ! i = (makeNode names rnd i)\<lparr>L_interbank := v\<rparr>" by blast
    then show "node_id (ns1 ! i) = i" by (simp add: makeNode_fields)
  qed
  have ranks: "\<forall>n\<in>set (map (finalizeNode (nat N) adj1) ns1). - debtRank n = 0"
  proof
    fix n assume "n \<in> set (map (finalizeNode (nat N) adj1) ns1)"
    then obtain i where i: "i < nat N" and n: "n = finalizeNode (nat N) adj1 (ns1 ! i)"
      using len1 by (auto simp: in_set_conv_nth)
    from shape i obtain v where "ns1 ! i = (makeNode names rnd i)\<lparr>L_interbank := v\<rparr>" by blast
    then show "- debtRank n = 0"
      by (simp add: n finalizeNode_def Let_def makeNode_fields)
  qed
  have sorted: "sort_key (\<lambda>n. - debtRank n) (map (finalizeNode (nat N) adj1) ns1)
      = map (finalizeNode (nat N) adj1) ns1"
    using ranks by (rule sort_key_const)
  have rows: "\<forall>n\<in>set (map (finalizeNode (nat N) adj1) ns1). node_id n < length adj1"
  proof
    fix n assume "n \<in> set (map (finalizeNode (nat N) adj1) ns1)"
    then obtain i where i: "i < nat N" and n: "n = finalizeNode (nat N) adj1 (ns1 ! i)"
      using len1 by (auto simp: in_set_conv_nth)
    then show "node_id n < length adj1"
      using ids len1 by (simp add: node_id_finalizeNode)
  qed
  have dash: "updateMetricsDashboard
        \<lparr>nodes = map (finalizeNode (nat N) adj1) ns1,
         links = concat (map (nodeLinks (nat N) adj1) (map (finalizeNode (nat N) adj1) ns1)),
         adj = adj1\<rparr>
      = Inr \<lparr>nodes = map (finalizeNode (nat N) adj1) ns1,
             links = concat (map (nodeLinks (nat N) adj1) (map (finalizeNode (nat N) adj1) ns1)),
             adj = adj1\<rparr>"
    using updateMetricsDashboard_total[of "\<lparr>nodes = map (finalizeNode (nat N) adj1) ns1,
         links = concat (map (nodeLinks (nat N) adj1) (map (finalizeNode (nat N) adj1) ns1)),
         adj = adj1\<rparr>"] rows sorted
    by simp
  have gen: "generateNetwork N shuffleNames shuffleNodes rnd
          = Inr \<lparr>nodes = map (finalizeNode (nat N) adj1) ns1,
                 links = concat (map (nodeLinks (nat N) adj1) (map (finalizeNode (nat N) adj1) ns1)),
                 adj = adj1\<rparr>"
    using assms loop dash
    by (simp add: generateNetwork_def Let_def names_def ns0_def adj0_def)
  from loop gen len1 ids show ?thesis
    unfolding names_def ns0_def adj0_def by blast
qed

lemma generateNetwork_wf:
  assumes "0 \<le> N" and "N \<le> MAX_ARRAY_LENGTH"
  shows "\<exists>net. generateNetwork N shuffleNames shuffleNodes rnd = Inr net \<and> wf_network N net"
proof -
  from generateNetwork_parts[OF assms, of shuffleNodes rnd shuffleNames]
  obtain ns1 adj1 where gen: "generateNetwork N shuffleNames shuffleNodes rnd
          = Inr \<lparr>nodes = map (finalizeNode (nat N) adj1) ns1,
                 links = concat (map (nodeLinks (nat N) adj1) (map (finalizeNode (nat N) adj1) ns1)),
                 adj = adj1\<rparr>"
    and len: "length ns1 = nat N" "length adj1 = nat N"
    and ids: "\<forall>i<nat N. node_id (ns1 ! i) = i"
    by blast
  have "map node_id (map (finalizeNode (nat N) adj1) ns1) = [0..<nat N]"
    using len ids by (intro nth_equalityI) (simp_all add: node_id_finalizeNode)
  then have "wf_network N \<lparr>nodes = map (finalizeNode (nat N) adj1) ns1,
                 links = concat (map (nodeLinks (nat N) adj1) (map (finalizeNode (nat N) adj1) ns1)),
                 adj = adj1\<rparr>"
    using len by (simp add: wf_network_def)
  with gen show ?thesis by blast
qed

section \<open>The claims about network generation\<close>

lemma halfDraws_range: "\<forall>p. 0 \<le> halfDraws p \<and> halfDraws p < 1"
  by (simp add: halfDraws_def)

lemmas generate_eval = generateNetwork_def Let_def INDIAN_BANK_NAMES_def sameOrder_def
  sameOrderAt_def halfDraws_def makeNode_def bankName_def js_slice0_def js_set_def
  finalizeNode_def nodeLinks_def updateMetricsDashboard_def ASSETS_MAX_def ASSETS_MIN_def
  MAX_CAPITAL_RATIO_def MIN_CAPITAL_RATIO_def MAX_ARRAY_LENGTH_def

lemma replicate_3: "replicate 3 x = [x, x, x]"
  by (simp add: numeral_3_eq_3)

lemma generate_single:
  "generateNetwork 1 sameOrder sameOrderAt halfDraws = Inr generatedSingle"
  by (simp add: generate_eval generatedSingle_def)

lemma generate_trio:
  "generateNetwork 3 sameOrder sameOrderAt halfDraws = Inr generatedTrio"
  by (simp add: generate_eval generatedTrio_def upt_3 replicate_3 numeral_2_eq_2)

subsection \<open>Claim C8\<close>

text \<open>
  Claim C8. In every generated network the sum of row \<open>i\<close> of the matrix, the liability
  that debtor \<open>i\<close> assigns to its creditors, does not exceed \<open>L_interbank\<close> of bank \<open>i\<close>: each
  share is clamped so that the assigned total stays within \<open>L_interbank\<close>, and a shortfall
  is left unassigned.

  The random numbers are in \<open>[0, 1)\<close>, as \<^verbatim>\<open>Math.random()\<close> returns them; nothing is asked of
  the shuffles. In the example three banks assign 0.6 of their interbank liability each.
\<close>

theorem row_sum_within_interbank_liability:
  assumes "\<forall>p. 0 \<le> rnd p \<and> rnd p < 1"
    and "generateNetwork N shuffleNames shuffleNodes rnd = Inr net"
  shows "\<forall>i<nat N. node_id (nodes net ! i) = i
            \<and> sum_list (adj net ! i) \<le> L_interbank (nodes net ! i)"
proof -
  have "\<not> (N < 0 \<or> MAX_ARRAY_LENGTH < N)"
  proof
    assume "N < 0 \<or> MAX_ARRAY_LENGTH < N"
    then have "generateNetwork N shuffleNames shuffleNodes rnd = Inl RangeError"
      by (simp add: generateNetwork_def)
    with assms(2) show False by simp
  qed
  then have N0: "0 \<le> N" "N \<le> MAX_ARRAY_LENGTH" by simp_all
  define names where "names = shuffleNames (take (nat N) INDIAN_BANK_NAMES)"
  define ns0 where "ns0 = map (makeNode names rnd) [0..<nat N]"
  define adj0 where "adj0 = replicate (nat N) (replicate (nat N) (0::real))"
  from generateNetwork_parts[OF N0, of shuffleNodes rnd shuffleNames]
  obtain ns1 adj1 pos where loop:
    "debtorLoop shuffleNodes rnd [0..<nat N] (ns0, adj0, 2 * nat N) = (ns1, adj1, pos)"
    and gen': "generateNetwork N shuffleNames shuffleNodes rnd
          = Inr \<lparr>nodes = map (finalizeNode (nat N) adj1) ns1,
                 links = concat (map (nodeLinks (nat N) adj1) (map (finalizeNode (nat N) adj1) ns1)),
                 adj = adj1\<rparr>"
    and len: "length ns1 = nat N" "length adj1 = nat N"
    and ids: "\<forall>i<nat N. node_id (ns1 ! i) = i"
    unfolding names_def ns0_def adj0_def by blast
  have p3: "\<forall>k\<in>set [0..<nat N]. k < length ns0 \<and> node_id (ns0 ! k) = k"
    by (simp add: ns0_def makeNode_fields)
  have p4: "length adj0 = length ns0"
    by (simp add: ns0_def adj0_def)
  have p5: "\<forall>k\<in>set [0..<nat N]. (\<forall>x\<in>set (adj0 ! k). 0 \<le> x) \<and> sum_list (adj0 ! k) \<le> 0
              \<and> 0 \<le> L (ns0 ! k)"
  proof
    fix k assume "k \<in> set [0..<nat N]"
    then have k: "k < nat N" by simp
    have "0 \<le> rnd (2 * k)" "rnd (2 * k + 1) \<le> 1"
      using assms(1) by (simp_all add: less_imp_le)
    then have "0 \<le> L (makeNode names rnd k)" by (rule makeNode_L)
    then show "(\<forall>x\<in>set (adj0 ! k). 0 \<le> x) \<and> sum_list (adj0 ! k) \<le> 0 \<and> 0 \<le> L (ns0 ! k)"
      using k by (simp add: adj0_def ns0_def sum_list_replicate)
  qed
  have p6: "\<forall>p. 0 \<le> rnd p" using assms(1) by simp
  have rows: "\<forall>k\<in>set [0..<nat N]. sum_list (adj1 ! k) \<le> L_interbank (ns1 ! k)"
    using debtorLoop_rows[OF loop distinct_upt p3 p4 p5 p6] by (rule conjunct2[THEN conjunct2, THEN conjunct2, THEN conjunct2])
  have net: "net = \<lparr>nodes = map (finalizeNode (nat N) adj1) ns1,
                 links = concat (map (nodeLinks (nat N) adj1) (map (finalizeNode (nat N) adj1) ns1)),
                 adj = adj1\<rparr>"
    using assms(2) gen' by simp
  show ?thesis
  proof (intro allI impI)
    fix i assume i: "i < nat N"
    have "nodes net ! i = finalizeNode (nat N) adj1 (ns1 ! i)"
      using i len by (simp add: net)
    then have a: "node_id (nodes net ! i) = i"
      and b: "L_interbank (nodes net ! i) = L_interbank (ns1 ! i)"
      using ids i by (simp_all add: finalizeNode_def Let_def)
    have "sum_list (adj net ! i) \<le> L_interbank (ns1 ! i)"
      using rows i by (simp add: net)
    with a b show "node_id (nodes net ! i) = i
            \<and> sum_list (adj net ! i) \<le> L_interbank (nodes net ! i)" by simp
  qed
qed

theorem row_sum_within_interbank_liability_witness:
  "(\<forall>p. 0 \<le> halfDraws p \<and> halfDraws p < 1)
   \<and> generateNetwork 3 sameOrder sameOrderAt halfDraws = Inr generatedTrio
   \<and> sum_list (adj generatedTrio ! 0) \<le> L_interbank (nodes generatedTrio ! 0)
   \<and> sum_list (adj generatedTrio ! 0) = 14337 / 40
   \<and> L_interbank (nodes generatedTrio ! 0) = 4779 / 8"
proof -
  from row_sum_within_interbank_liability[OF halfDraws_range generate_trio, rule_format, of 0]
  have "sum_list (adj generatedTrio ! 0) \<le> L_interbank (nodes generatedTrio ! 0)"
    by simp
  with halfDraws_range generate_trio show ?thesis
    by (simp add: generatedTrio_def)
qed

subsection \<open>Claim C9\<close>

text \<open>
  Claim C9. Network generation succeeds for every bank count \<open>N \<ge> 2\<close>, and for \<open>N < 2\<close> it
  rejects with a configuration error before any randomization and produces no network.

  The function checks nothing. For one bank it draws the balance sheet and the interbank
  fraction and returns a network of that bank with an empty row.
\<close>

theorem single_bank_is_generated:
  "generateNetwork 1 sameOrder sameOrderAt halfDraws = Inr generatedSingle
   \<and> length (nodes generatedSingle) = 1 \<and> adj generatedSingle = [ [0]]
   \<and> L_interbank (nodes generatedSingle ! 0) = 4779 / 8"
  using generate_single by (simp add: generatedSingle_def)

text \<open>
  Claim C9 as amended: network generation checks no parameter. It succeeds for every bank
  count \<open>N\<close> from 0 to the largest array length, so for every \<open>N \<ge> 2\<close> in that range and also
  for 0 and 1, and returns \<open>N\<close> banks numbered by position with a matrix of \<open>N\<close> rows. For 0
  and 1 bank no liability is assigned, the matrix stays zero, if the shuffle of an empty
  list is empty. It fails only for a negative \<open>N\<close> or an \<open>N\<close> above the largest array length,
  with \<^verbatim>\<open>RangeError\<close>.
\<close>

theorem generation_succeeds_without_check:
  "(0 \<le> N \<and> N \<le> MAX_ARRAY_LENGTH \<longrightarrow>
      (\<exists>net. generateNetwork N shuffleNames shuffleNodes rnd = Inr net
          \<and> wf_network N net \<and> length (nodes net) = nat N
          \<and> (N \<le> 1 \<and> (\<forall>k. shuffleNodes k [] = []) \<longrightarrow>
                adj net = replicate (nat N) (replicate (nat N) 0))))
   \<and> (N < 0 \<or> MAX_ARRAY_LENGTH < N \<longrightarrow>
        generateNetwork N shuffleNames shuffleNodes rnd = Inl RangeError)"
proof (intro conjI impI)
  assume range: "0 \<le> N \<and> N \<le> MAX_ARRAY_LENGTH"
  then have N0: "0 \<le> N" "N \<le> MAX_ARRAY_LENGTH" by simp_all
  define names where "names = shuffleNames (take (nat N) INDIAN_BANK_NAMES)"
  from generateNetwork_parts[OF N0, of shuffleNodes rnd shuffleNames]
  obtain ns1 adj1 pos where loop:
    "debtorLoop shuffleNodes rnd [0..<nat N]
        (map (makeNode names rnd) [0..<nat N], replicate (nat N) (replicate (nat N) 0), 2 * nat N)
      = (ns1, adj1, pos)"
    and gen: "generateNetwork N shuffleNames shuffleNodes rnd
          = Inr \<lparr>nodes = map (finalizeNode (nat N) adj1) ns1,
                 links = concat (map (nodeLinks (nat N) adj1) (map (finalizeNode (nat N) adj1) ns1)),
                 adj = adj1\<rparr>"
    and len: "length ns1 = nat N" "length adj1 = nat N"
    and ids: "\<forall>i<nat N. node_id (ns1 ! i) = i"
    unfolding names_def by blast
  define net where "net = \<lparr>nodes = map (finalizeNode (nat N) adj1) ns1,
                 links = concat (map (nodeLinks (nat N) adj1) (map (finalizeNode (nat N) adj1) ns1)),
                 adj = adj1\<rparr>"
  have g: "generateNetwork N shuffleNames shuffleNodes rnd = Inr net"
    using gen by (simp add: net_def)
  have "map node_id (nodes net) = [0..<nat N]"
    using len ids by (intro nth_equalityI) (simp_all add: net_def node_id_finalizeNode)
  then have w: "wf_network N net"
    using len by (simp add: wf_network_def net_def)
  have l: "length (nodes net) = nat N"
    using len by (simp add: net_def)
  have z: "N \<le> 1 \<and> (\<forall>k. shuffleNodes k [] = []) \<longrightarrow>
                adj net = replicate (nat N) (replicate (nat N) 0)"
  proof
    assume h: "N \<le> 1 \<and> (\<forall>k. shuffleNodes k [] = [])"
    then have e: "shuffleNodes 0 [] = []" by simp
    from h N0 have "N = 0 \<or> N = 1" by auto
    then show "adj net = replicate (nat N) (replicate (nat N) 0)"
    proof
      assume "N = 0"
      with loop show ?thesis by (simp add: net_def)
    next
      assume "N = 1"
      with loop have "debtorLoop shuffleNodes rnd [0] ([makeNode names rnd 0], [ [0]], 2)
          = (ns1, adj1, pos)"
        by simp
      moreover have "debtorLoop shuffleNodes rnd [0] ([makeNode names rnd 0], [ [0]], 2)
          = ([(makeNode names rnd 0)\<lparr>L_interbank := L (makeNode names rnd 0) * (0.15 + rnd 2 * 0.15)\<rparr>],
             [ [0]], 2 + 2)"
        using e by (intro debtorLoop_single) (simp_all add: makeNode_fields)
      ultimately have "adj1 = [ [0]]" by simp
      with \<open>N = 1\<close> show ?thesis by (simp add: net_def)
    qed
  qed
  from g w l z
  show "\<exists>net. generateNetwork N shuffleNames shuffleNodes rnd = Inr net
          \<and> wf_network N net \<and> length (nodes net) = nat N
          \<and> (N \<le> 1 \<and> (\<forall>k. shuffleNodes k [] = []) \<longrightarrow>
                adj net = replicate (nat N) (replicate (nat N) 0))"
    by blast
next
  assume "N < 0 \<or> MAX_ARRAY_LENGTH < N"
  then show "generateNetwork N shuffleNames shuffleNodes rnd = Inl RangeError"
    by (simp add: generateNetwork_def)
qed

theorem generation_succeeds_without_check_witness:
  "(0::int) \<le> 1 \<and> (1::int) \<le> MAX_ARRAY_LENGTH \<and> (\<forall>k. sameOrderAt k [] = [])
   \<and> generateNetwork 1 sameOrder sameOrderAt halfDraws = Inr generatedSingle
   \<and> wf_network 1 generatedSingle
   \<and> adj generatedSingle = replicate (nat 1) (replicate (nat 1) 0)
   \<and> (- 1 :: int) < 0 \<and> generateNetwork (- 1) sameOrder sameOrderAt halfDraws = Inl RangeError
   \<and> MAX_ARRAY_LENGTH < 4294967296
   \<and> generateNetwork 4294967296 sameOrder sameOrderAt halfDraws = Inl RangeError"
proof -
  note inst1 = generation_succeeds_without_check[of 1 sameOrder sameOrderAt halfDraws]
  note inst2 = generation_succeeds_without_check[of "- 1" sameOrder sameOrderAt halfDraws]
  note inst3 = generation_succeeds_without_check[of 4294967296 sameOrder sameOrderAt halfDraws]
  have r: "(0::int) \<le> 1 \<and> (1::int) \<le> MAX_ARRAY_LENGTH"
    by (simp add: MAX_ARRAY_LENGTH_def)
  have e: "\<forall>k. sameOrderAt k [] = []"
    by (simp add: sameOrderAt_def)
  from inst1 r obtain net where n: "generateNetwork 1 sameOrder sameOrderAt halfDraws = Inr net"
    and w: "wf_network 1 net"
    and z: "(1::int) \<le> 1 \<and> (\<forall>k. sameOrderAt k [] = []) \<longrightarrow>
              adj net = replicate (nat 1) (replicate (nat 1) 0)"
    by blast
  from n generate_single have "net = generatedSingle" by simp
  with w z e have a: "wf_network 1 generatedSingle"
    and b: "adj generatedSingle = replicate (nat 1) (replicate (nat 1) 0)"
    by simp_all
  have big: "MAX_ARRAY_LENGTH < 4294967296"
    by (simp add: MAX_ARRAY_LENGTH_def)
  from inst2 have c: "generateNetwork (- 1) sameOrder sameOrderAt halfDraws = Inl RangeError"
    by simp
  from inst3 big
  have d: "generateNetwork 4294967296 sameOrder sameOrderAt halfDraws = Inl RangeError"
    by simp
  from r e generate_single a b c big d show ?thesis by simp
qed

end
